theory Spec2Isabelle
  imports Complex_Main
begin

section \<open>Chronos scheduler: data model\<close>

text \<open>
  The backend keeps its data in PostgreSQL tables reached through Prisma, and its
  undo/redo history in two module-level arrays of \<^verbatim>\<open>routes/schedule.ts\<close>. Each route
  handler is modelled as a function on that state. A handler that throws returns
  \<open>Inl\<close> of the error the route's \<^verbatim>\<open>catch\<close> block rethrows, together with the state
  as the handler left it: what was written before the throw stays written, except inside
  \<^verbatim>\<open>prisma.$transaction\<close>.
\<close>

subsection \<open>Dates and numbers of the host language\<close>

text \<open>
  A \<^verbatim>\<open>Date\<close> stored in a \<^verbatim>\<open>TIMESTAMP\<close> column is kept by its UTC reading: the year, the
  month (1 to 12) and the milliseconds elapsed since that month began. Two dates are the
  same instant exactly when the three fields agree, and the order of instants is the
  lexicographic order of the fields. Years are those of the common era that
  \<^verbatim>\<open>toISOString\<close> can print.
\<close>

record jsdate =
  dyear :: nat
  dmonth :: nat
  drest :: nat

definition date_le :: "jsdate \<Rightarrow> jsdate \<Rightarrow> bool" where
  "date_le a b =
     (dyear a < dyear b \<or>
      (dyear a = dyear b \<and> (dmonth a < dmonth b \<or> (dmonth a = dmonth b \<and> drest a \<le> drest b))))"

text \<open>The decimal digit of the units of \<open>n\<close>.\<close>

definition digit :: "nat \<Rightarrow> char" where
  "digit n =
     (let d = n mod 10
      in if d = 0 then CHR ''0'' else if d = 1 then CHR ''1''
         else if d = 2 then CHR ''2'' else if d = 3 then CHR ''3''
         else if d = 4 then CHR ''4'' else if d = 5 then CHR ''5''
         else if d = 6 then CHR ''6'' else if d = 7 then CHR ''7''
         else if d = 8 then CHR ''8'' else CHR ''9'')"

text \<open>The last two, four and six decimal digits of \<open>n\<close>, with leading zeros.\<close>

definition pad2 :: "nat \<Rightarrow> string" where
  "pad2 n = [digit (n div 10), digit n]"

definition pad4 :: "nat \<Rightarrow> string" where
  "pad4 n = pad2 (n div 100) @ pad2 n"

definition pad6 :: "nat \<Rightarrow> string" where
  "pad6 n = pad2 (n div 10000) @ pad4 n"

text \<open>
  \<^verbatim>\<open>d.toISOString().substring(0, 7)\<close> for the UTC year \<open>y\<close> and month \<open>m\<close>: four digits
  of year up to 9999, the expanded form \<^verbatim>\<open>+YYYYYY\<close> beyond.
\<close>

definition iso_month_key :: "nat \<Rightarrow> nat \<Rightarrow> string" where
  "iso_month_key y m =
     take 7 ((if y \<le> 9999 then pad4 y else CHR ''+'' # pad6 y) @ ''-'' @ pad2 m)"

definition toISOString_7 :: "jsdate \<Rightarrow> string" where
  "toISOString_7 d = iso_month_key (dyear d) (dmonth d)"

text \<open>
  What \<^verbatim>\<open>new Date()\<close> gives the evaluate handler: the local year, the local month
  (0 to 11), and whether local time is ahead of UTC. \<^verbatim>\<open>new Date(y, m + 1, 1)\<close> is local
  midnight on the first of the following month (a year below 100 counts from 1900, month
  12 is January of the next year); \<^verbatim>\<open>toISOString\<close> prints it in UTC, where a zone ahead
  of UTC is still on the last day of the month before.
\<close>

record jsnow =
  getFullYear :: nat
  getMonth :: nat
  aheadOfUTC :: bool

definition next_month_slot :: "jsnow \<Rightarrow> string" where
  "next_month_slot now =
     (let y = (if getFullYear now < 100 then 1900 + getFullYear now else getFullYear now);
          m = getMonth now
      in if aheadOfUTC now then iso_month_key y (m + 1)
         else if m + 1 > 11 then iso_month_key (y + 1) 1
         else iso_month_key y (m + 2))"

text \<open>
  Numbers that come out of a division: a quotient, or what IEEE arithmetic returns for a
  zero divisor. Quotients are exact rationals; the rounding of binary floating point is
  not modelled, so a value rounded to two decimals is that of the exact quotient, which
  the double the handler computes can miss by one unit of the last decimal (for 23 of
  160 the exact 14.375 rounds to 14.38, the double product to 14.37). The properties
  below read rounded values only at 0, 3 and 100, where the two agree. Counts are never
  negative, so a zero divisor gives \<open>NaN\<close> or \<open>+Infinity\<close>.
\<close>

datatype jsnum = Num rat | Infinity | NaN

definition js_div :: "nat \<Rightarrow> int \<Rightarrow> jsnum" where
  "js_div a b =
     (if b = 0 then (if a = 0 then NaN else Infinity)
      else Num (of_nat a / of_int b))"

definition js_times :: "jsnum \<Rightarrow> rat \<Rightarrow> jsnum" where
  "js_times x k = (case x of Num r \<Rightarrow> Num (r * k) | Infinity \<Rightarrow> Infinity | NaN \<Rightarrow> NaN)"

definition js_ge :: "jsnum \<Rightarrow> rat \<Rightarrow> bool" where
  "js_ge x k = (case x of Num r \<Rightarrow> k \<le> r | Infinity \<Rightarrow> True | NaN \<Rightarrow> False)"

text \<open>\<^verbatim>\<open>Math.round(x * 100) / 100\<close>; \<^verbatim>\<open>Math.round\<close> rounds a half towards \<open>+\<infinity>\<close>.\<close>

definition round2 :: "jsnum \<Rightarrow> jsnum" where
  "round2 x =
     (case x of Num r \<Rightarrow> Num (of_int \<lfloor>r * 100 + 1 / 2\<rfloor> / 100)
      | Infinity \<Rightarrow> Infinity | NaN \<Rightarrow> NaN)"

text \<open>\<^verbatim>\<open>Math.round(x)\<close> of a quotient with a positive divisor.\<close>

definition math_round :: "rat \<Rightarrow> int" where
  "math_round r = \<lfloor>r + 1 / 2\<rfloor>"

subsection \<open>Tables\<close>

text \<open>
  Rows carry the columns the handlers read or write. A table is the list of its rows in
  insertion order. \<^verbatim>\<open>Assignment.id\<close> is a \<^verbatim>\<open>SERIAL\<close> column: its sequence lives beside
  the tables and, as in PostgreSQL, is not rolled back with a transaction.
\<close>

record car =
  car_id :: nat
  car_status :: string

record shop =
  shop_id :: nat
  shop_name :: string
  shop_capacity :: int

record assignment =
  asg_id :: nat
  asg_carId :: nat
  asg_shopId :: nat
  asg_month :: jsdate

text \<open>
  \<^verbatim>\<open>interface ScenarioAssignment\<close>: the month is the string the client sent. The body of
  \<^verbatim>\<open>POST /assign\<close> has the same three fields.
\<close>

record ScenarioAssignment =
  carId :: nat
  shopId :: nat
  month :: string

text \<open>
  A scenario row; \<open>scenario_data\<close> is \<^verbatim>\<open>data.assignments\<close>, \<open>None\<close> when that field is
  missing or is not an array.
\<close>

record scenario =
  scenario_id :: nat
  scenario_name :: string
  scenario_data :: "ScenarioAssignment list option"

record store =
  cars :: "car list"
  shops :: "shop list"
  assignments :: "assignment list"
  scenarios :: "scenario list"

datatype error = HttpError string nat

section \<open>Scenario evaluation\<close>

text \<open>
  \<^verbatim>\<open>POST /api/scenarios/evaluate\<close>. \<open>monthlyData\<close> is a \<^verbatim>\<open>Map\<close> from month key to a
  pair of counters; a \<^verbatim>\<open>Map\<close> iterates in the order its keys were first set, so it is a
  list of pairs, and \<open>map_set\<close> overwrites in place or appends.
\<close>

record month_counts =
  current :: nat
  scenario :: nat

type_synonym monthly = "(string \<times> month_counts) list"

fun map_set :: "string \<Rightarrow> month_counts \<Rightarrow> monthly \<Rightarrow> monthly" where
  "map_set k v [] = [(k, v)]"
| "map_set k v ((k', v') # m) =
     (if k' = k then (k, v) # m else (k', v') # map_set k v m)"

definition map_get_or_zero :: "monthly \<Rightarrow> string \<Rightarrow> month_counts" where
  "map_get_or_zero m k =
     (case map_of m k of Some e \<Rightarrow> e | None \<Rightarrow> \<lparr>current = 0, scenario = 0\<rparr>)"

definition add_current :: "monthly \<Rightarrow> assignment \<Rightarrow> monthly" where
  "add_current m a =
     (let monthKey = toISOString_7 (asg_month a);
          existing = map_get_or_zero m monthKey
      in map_set monthKey (existing\<lparr>current := current existing + 1\<rparr>) m)"

definition add_scenario :: "monthly \<Rightarrow> ScenarioAssignment \<Rightarrow> monthly" where
  "add_scenario m a =
     (let monthKey = take 7 (month a);
          existing = map_get_or_zero m monthKey
      in map_set monthKey (existing\<lparr>scenario := scenario existing + 1\<rparr>) m)"

definition monthlyData :: "assignment list \<Rightarrow> ScenarioAssignment list \<Rightarrow> shop \<Rightarrow> monthly" where
  "monthlyData currentAssignments proposed sh =
     foldl add_scenario
       (foldl add_current [] (filter (\<lambda>a. asg_shopId a = shop_id sh) currentAssignments))
       (filter (\<lambda>a. shopId a = shop_id sh) proposed)"

text \<open>
  The three variables of the loop over \<open>monthlyData.entries()\<close>. \<^verbatim>\<open>!earliestSlot\<close> holds
  for \<^verbatim>\<open>null\<close> and for the empty string.
\<close>

record scan =
  maxTotal :: nat
  maxOverload :: int
  slot :: "string option"

definition unset :: "string option \<Rightarrow> bool" where
  "unset e = (case e of None \<Rightarrow> True | Some s \<Rightarrow> s = [])"

definition scan_step :: "int \<Rightarrow> scan \<Rightarrow> string \<times> month_counts \<Rightarrow> scan" where
  "scan_step cap sc e =
     (let total = current (snd e) + scenario (snd e);
          sc1 = (if total > maxTotal sc then sc\<lparr>maxTotal := total\<rparr> else sc);
          sc2 = (if int total > cap \<and> int total - cap > maxOverload sc1
                 then sc1\<lparr>maxOverload := int total - cap\<rparr> else sc1)
      in if int total < cap \<and> unset (slot sc2) then sc2\<lparr>slot := Some (fst e)\<rparr> else sc2)"

definition scan_months :: "int \<Rightarrow> monthly \<Rightarrow> scan" where
  "scan_months cap m = foldl (scan_step cap) \<lparr>maxTotal = 0, maxOverload = 0, slot = None\<rparr> m"

datatype fit_status = green | yellow | red

record FitResult =
  fr_shopId :: nat
  shopName :: string
  capacity :: int
  currentAssigned :: nat
  scenarioAssigned :: nat
  totalAssigned :: nat
  utilizationPercent :: jsnum
  status :: fit_status
  overload :: int
  earliestSlot :: string

definition shop_fit :: "jsnow \<Rightarrow> assignment list \<Rightarrow> ScenarioAssignment list \<Rightarrow> shop \<Rightarrow> FitResult" where
  "shop_fit now currentAssignments proposed sh =
     (let sc = scan_months (shop_capacity sh) (monthlyData currentAssignments proposed sh);
          slot' = (if unset (slot sc) then next_month_slot now else the (slot sc));
          currentTotal = length (filter (\<lambda>a. asg_shopId a = shop_id sh) currentAssignments);
          scenarioTotal = length (filter (\<lambda>a. shopId a = shop_id sh) proposed);
          util = js_times (js_div (maxTotal sc) (shop_capacity sh)) 100;
          st = (if int (maxTotal sc) > shop_capacity sh then red
                else if js_ge util 80 then yellow
                else green)
      in \<lparr>fr_shopId = shop_id sh, shopName = shop_name sh, capacity = shop_capacity sh,
          currentAssigned = currentTotal, scenarioAssigned = scenarioTotal,
          totalAssigned = maxTotal sc, utilizationPercent = round2 util, status = st,
          overload = maxOverload sc, earliestSlot = slot'\<rparr>)"

record summary =
  n_green :: nat
  n_yellow :: nat
  n_red :: nat

record EvaluationResult =
  fitScore :: jsnum
  totalOverload :: int
  fitResults :: "FitResult list"
  fit_summary :: summary

definition count_status :: "fit_status \<Rightarrow> FitResult list \<Rightarrow> nat" where
  "count_status c rs = length (filter (\<lambda>r. status r = c) rs)"

text \<open>
  The body's \<^verbatim>\<open>assignments\<close> field is \<open>None\<close> when it is missing or not an array. The
  handler reads the tables and writes nothing.
\<close>

definition evaluate :: "jsnow \<Rightarrow> ScenarioAssignment list option \<Rightarrow> store \<Rightarrow> error + EvaluationResult" where
  "evaluate now body db =
     (case body of
        None \<Rightarrow> Inl (HttpError ''assignments array is required'' 400)
      | Some proposed \<Rightarrow>
          (let results = map (shop_fit now (assignments db) proposed) (shops db);
               greenCount = count_status green results;
               score = (if length (shops db) > 0
                        then js_times (js_div greenCount (int (length (shops db)))) 100
                        else Num 0)
           in Inr \<lparr>fitScore = round2 score,
                   totalOverload = foldl (\<lambda>sum r. sum + overload r) 0 results,
                   fitResults = results,
                   fit_summary = \<lparr>n_green = greenCount,
                                   n_yellow = count_status yellow results,
                                   n_red = count_status red results\<rparr>\<rparr>))"

section \<open>Prisma operations\<close>

text \<open>
  The process state: the tables, the sequence behind \<^verbatim>\<open>Assignment.id\<close>, and the two
  history arrays of \<^verbatim>\<open>routes/schedule.ts\<close>. An array's last element is the one
  \<^verbatim>\<open>push\<close> added and \<^verbatim>\<open>pop\<close> removes; \<^verbatim>\<open>shift\<close> removes the first.
\<close>

datatype action_type = Create | Update | Delete

record HistoryAction =
  htype :: action_type
  hdata :: assignment
  timestamp :: nat

record state =
  db :: store
  assignmentSeq :: nat
  undoStack :: "HistoryAction list"
  redoStack :: "HistoryAction list"

type_synonym 'a result = "(error + 'a) \<times> state"

definition car_findUnique :: "store \<Rightarrow> nat \<Rightarrow> car option" where
  "car_findUnique d i = find (\<lambda>c. car_id c = i) (cars d)"

definition shop_findUnique :: "store \<Rightarrow> nat \<Rightarrow> shop option" where
  "shop_findUnique d i = find (\<lambda>s. shop_id s = i) (shops d)"

definition scenario_findUnique :: "store \<Rightarrow> nat \<Rightarrow> scenario option" where
  "scenario_findUnique d i = find (\<lambda>s. scenario_id s = i) (scenarios d)"

definition assignment_findUnique :: "store \<Rightarrow> nat \<Rightarrow> assignment option" where
  "assignment_findUnique d i = find (\<lambda>a. asg_id a = i) (assignments d)"

definition assignment_findUnique_carId_month :: "store \<Rightarrow> nat \<Rightarrow> jsdate \<Rightarrow> assignment option" where
  "assignment_findUnique_carId_month d c m =
     find (\<lambda>a. asg_carId a = c \<and> asg_month a = m) (assignments d)"

definition assignment_count_shop_month :: "store \<Rightarrow> nat \<Rightarrow> jsdate \<Rightarrow> nat" where
  "assignment_count_shop_month d sh m =
     length (filter (\<lambda>a. asg_shopId a = sh \<and> asg_month a = m) (assignments d))"

definition assignment_count_car :: "store \<Rightarrow> nat \<Rightarrow> nat" where
  "assignment_count_car d c = length (filter (\<lambda>a. asg_carId a = c) (assignments d))"

text \<open>
  \<^verbatim>\<open>assignment.create\<close>: the row takes the next value of the sequence, which is consumed
  whether or not the insert goes through. The insert is refused by the unique index on
  \<^verbatim>\<open>(carId, month)\<close> and by the two foreign keys. The message of an error raised by
  Prisma itself is abbreviated; the route rethrows it with status 500.
\<close>

definition assignment_create :: "nat \<Rightarrow> nat \<Rightarrow> jsdate \<Rightarrow> state \<Rightarrow> assignment result" where
  "assignment_create c sh m s =
     (let row = \<lparr>asg_id = assignmentSeq s, asg_carId = c, asg_shopId = sh, asg_month = m\<rparr>;
          s1 = s\<lparr>assignmentSeq := assignmentSeq s + 1\<rparr>
      in if assignment_findUnique_carId_month (db s) c m \<noteq> None
         then (Inl (HttpError ''Unique constraint failed on the fields: (carId,month)'' 500), s1)
         else if car_findUnique (db s) c = None \<or> shop_findUnique (db s) sh = None
         then (Inl (HttpError ''Foreign key constraint failed'' 500), s1)
         else (Inr row, s1\<lparr>db := (db s)\<lparr>assignments := assignments (db s) @ [row]\<rparr>\<rparr>))"

definition assignment_delete :: "nat \<Rightarrow> state \<Rightarrow> unit result" where
  "assignment_delete i s =
     (if assignment_findUnique (db s) i = None
      then (Inl (HttpError ''Record to delete does not exist.'' 500), s)
      else (Inr (),
            s\<lparr>db := (db s)\<lparr>assignments := filter (\<lambda>a. asg_id a \<noteq> i) (assignments (db s))\<rparr>\<rparr>))"

definition car_update_status :: "nat \<Rightarrow> string \<Rightarrow> state \<Rightarrow> unit result" where
  "car_update_status c st s =
     (if car_findUnique (db s) c = None
      then (Inl (HttpError ''Record to update not found.'' 500), s)
      else (Inr (),
            s\<lparr>db := (db s)\<lparr>cars :=
                 map (\<lambda>r. if car_id r = c then r\<lparr>car_status := st\<rparr> else r) (cars (db s))\<rparr>\<rparr>))"

text \<open>
  \<^verbatim>\<open>prisma.$transaction\<close>: when the callback throws, the tables are as they were before
  it ran.
\<close>

definition transaction :: "(state \<Rightarrow> 'a result) \<Rightarrow> state \<Rightarrow> 'a result" where
  "transaction f s =
     (case f s of
        (Inl e, s') \<Rightarrow> (Inl e, s'\<lparr>db := db s\<rparr>)
      | (Inr x, s') \<Rightarrow> (Inr x, s'))"

section \<open>Assignment service and history\<close>

definition MAX_HISTORY :: nat where
  "MAX_HISTORY = 50"

definition addToHistory :: "HistoryAction \<Rightarrow> state \<Rightarrow> state" where
  "addToHistory action s =
     (let pushed = undoStack s @ [action]
      in s\<lparr>undoStack := (if length pushed > MAX_HISTORY then tl pushed else pushed),
            redoStack := []\<rparr>)"

record assign_response =
  data :: assignment
  warning :: "string option"

text \<open>
  \<^verbatim>\<open>POST /api/schedule/assign\<close>. \<open>Date_new\<close> is the constructor \<^verbatim>\<open>new Date(month)\<close> on
  strings, \<open>None\<close> for an invalid date, which Prisma refuses when it first meets it. \<open>now\<close>
  is the clock at the time of the call. A field of the body that is zero or empty is
  missing for \<^verbatim>\<open>!carId || !shopId || !month\<close>.
\<close>

definition invalid_date :: error where
  "invalid_date = HttpError ''Invalid value for argument month: Provided Date object is invalid.'' 500"

definition assign :: "(string \<Rightarrow> jsdate option) \<Rightarrow> nat \<Rightarrow> ScenarioAssignment \<Rightarrow> state \<Rightarrow> assign_response result" where
  "assign Date_new now body s =
     (if carId body = 0 \<or> shopId body = 0 \<or> month body = []
      then (Inl (HttpError ''carId, shopId, and month are required'' 400), s)
      else case car_findUnique (db s) (carId body) of
        None \<Rightarrow> (Inl (HttpError ''Car not found'' 404), s)
      | Some c \<Rightarrow>
      (case shop_findUnique (db s) (shopId body) of
        None \<Rightarrow> (Inl (HttpError ''Shop not found'' 404), s)
      | Some sh \<Rightarrow>
      (case Date_new (month body) of
        None \<Rightarrow> (Inl invalid_date, s)
      | Some monthDate \<Rightarrow>
      (case assignment_findUnique_carId_month (db s) (carId body) monthDate of
        Some existing \<Rightarrow> (Inl (HttpError ''Car already assigned for this month'' 400), s)
      | None \<Rightarrow>
      (let monthAssignments = assignment_count_shop_month (db s) (shopId body) monthDate;
           isOverCapacity = (int monthAssignments \<ge> shop_capacity sh)
       in case assignment_create (carId body) (shopId body) monthDate s of
            (Inl e, s1) \<Rightarrow> (Inl e, s1)
          | (Inr a, s1) \<Rightarrow>
          (case car_update_status (carId body) ''scheduled'' s1 of
            (Inl e, s2) \<Rightarrow> (Inl e, s2)
          | (Inr u, s2) \<Rightarrow>
              (Inr \<lparr>data = a,
                    warning = (if isOverCapacity
                               then Some (''Shop '' @ shop_name sh @ '' is over capacity for this month'')
                               else None)\<rparr>,
               addToHistory \<lparr>htype = Create, hdata = a, timestamp = now\<rparr> s2)))))))"

text \<open>\<^verbatim>\<open>DELETE /api/schedule/unassign/:id\<close>; the action is logged before the row is deleted.\<close>

definition unassign :: "nat \<Rightarrow> nat \<Rightarrow> state \<Rightarrow> string result" where
  "unassign now assignmentId s =
     (case assignment_findUnique (db s) assignmentId of
        None \<Rightarrow> (Inl (HttpError ''Assignment not found'' 404), s)
      | Some a \<Rightarrow>
      (let s1 = addToHistory \<lparr>htype = Delete, hdata = a, timestamp = now\<rparr> s
       in case assignment_delete assignmentId s1 of
            (Inl e, s2) \<Rightarrow> (Inl e, s2)
          | (Inr u, s2) \<Rightarrow>
              (if assignment_count_car (db s2) (asg_carId a) = 0
               then (case car_update_status (asg_carId a) ''unscheduled'' s2 of
                       (Inl e, s3) \<Rightarrow> (Inl e, s3)
                     | (Inr u, s3) \<Rightarrow> (Inr ''Assignment deleted successfully'', s3))
               else (Inr ''Assignment deleted successfully'', s2))))"

text \<open>
  The two ways a logged action is carried out again, shared by undo and redo: deleting
  the logged assignment by its id and resetting the car when none is left, and inserting
  a row with the logged car, shop and month.
\<close>

definition delete_logged :: "assignment \<Rightarrow> state \<Rightarrow> unit result" where
  "delete_logged a s =
     (case assignment_delete (asg_id a) s of
        (Inl e, s1) \<Rightarrow> (Inl e, s1)
      | (Inr u, s1) \<Rightarrow>
          (if assignment_count_car (db s1) (asg_carId a) = 0
           then car_update_status (asg_carId a) ''unscheduled'' s1
           else (Inr (), s1)))"

definition create_logged :: "assignment \<Rightarrow> state \<Rightarrow> unit result" where
  "create_logged a s =
     (case assignment_create (asg_carId a) (asg_shopId a) (asg_month a) s of
        (Inl e, s1) \<Rightarrow> (Inl e, s1)
      | (Inr n, s1) \<Rightarrow> car_update_status (asg_carId a) ''scheduled'' s1)"

record history_response =
  message :: string
  undoStackSize :: nat
  redoStackSize :: nat

definition history_reply :: "string \<Rightarrow> unit result \<Rightarrow> history_response result" where
  "history_reply msg r =
     (case r of
        (Inl e, s) \<Rightarrow> (Inl e, s)
      | (Inr u, s) \<Rightarrow>
          (Inr \<lparr>message = msg, undoStackSize = length (undoStack s),
                redoStackSize = length (redoStack s)\<rparr>, s))"

text \<open>\<^verbatim>\<open>POST /api/schedule/undo\<close>: the action changes stacks before it is reversed.\<close>

definition undo :: "state \<Rightarrow> history_response result" where
  "undo s =
     (if length (undoStack s) = 0 then (Inl (HttpError ''Nothing to undo'' 400), s)
      else
        (let action = last (undoStack s);
             s1 = s\<lparr>undoStack := butlast (undoStack s), redoStack := redoStack s @ [action]\<rparr>
         in history_reply ''Action undone''
              (if htype action = Create then delete_logged (hdata action) s1
               else if htype action = Delete then create_logged (hdata action) s1
               else (Inr (), s1))))"

text \<open>\<^verbatim>\<open>POST /api/schedule/redo\<close>.\<close>

definition redo :: "state \<Rightarrow> history_response result" where
  "redo s =
     (if length (redoStack s) = 0 then (Inl (HttpError ''Nothing to redo'' 400), s)
      else
        (let action = last (redoStack s);
             s1 = s\<lparr>redoStack := butlast (redoStack s), undoStack := undoStack s @ [action]\<rparr>
         in history_reply ''Action redone''
              (if htype action = Create then create_logged (hdata action) s1
               else if htype action = Delete then delete_logged (hdata action) s1
               else (Inr (), s1))))"

section \<open>Applying a scenario\<close>

text \<open>
  \<^verbatim>\<open>POST /api/scenarios/:id/apply\<close>. The loop runs inside \<^verbatim>\<open>prisma.$transaction\<close> and
  returns the rows it created; the reply's data is that list.
\<close>

fun apply_loop :: "(string \<Rightarrow> jsdate option) \<Rightarrow> ScenarioAssignment list \<Rightarrow> assignment list \<Rightarrow> state \<Rightarrow> assignment list result" where
  "apply_loop Date_new [] created s = (Inr created, s)"
| "apply_loop Date_new (a # rest) created s =
     (case Date_new (month a) of
        None \<Rightarrow> (Inl invalid_date, s)
      | Some d \<Rightarrow>
      (case assignment_findUnique_carId_month (db s) (carId a) d of
        Some existing \<Rightarrow> apply_loop Date_new rest created s
      | None \<Rightarrow>
      (case assignment_create (carId a) (shopId a) d s of
        (Inl e, s1) \<Rightarrow> (Inl e, s1)
      | (Inr newAssignment, s1) \<Rightarrow>
      (case car_update_status (carId a) ''scheduled'' s1 of
        (Inl e, s2) \<Rightarrow> (Inl e, s2)
      | (Inr u, s2) \<Rightarrow> apply_loop Date_new rest (created @ [newAssignment]) s2))))"

definition apply_scenario :: "(string \<Rightarrow> jsdate option) \<Rightarrow> nat \<Rightarrow> state \<Rightarrow> assignment list result" where
  "apply_scenario Date_new scenarioId s =
     (case scenario_findUnique (db s) scenarioId of
        None \<Rightarrow> (Inl (HttpError ''Scenario not found'' 404), s)
      | Some sc \<Rightarrow>
      (case scenario_data sc of
        None \<Rightarrow> (Inl (HttpError ''Invalid scenario data'' 400), s)
      | Some proposed \<Rightarrow> transaction (apply_loop Date_new proposed []) s))"

section \<open>Requests in sequence\<close>

text \<open>
  The requests that reach the two history arrays or the assignments, and \<open>Other\<close> for
  any other route of the server: those routes cannot name the arrays, which are local to
  \<^verbatim>\<open>routes/schedule.ts\<close>, and may leave any tables and any sequence value behind.
\<close>

datatype request =
    Assign nat ScenarioAssignment
  | Unassign nat nat
  | Undo
  | Redo
  | Apply nat
  | Evaluate jsnow "ScenarioAssignment list option"
  | Other store nat

fun step :: "(string \<Rightarrow> jsdate option) \<Rightarrow> state \<Rightarrow> request \<Rightarrow> state" where
  "step Date_new s (Assign now body) = snd (assign Date_new now body s)"
| "step Date_new s (Unassign now i) = snd (unassign now i s)"
| "step Date_new s Undo = snd (undo s)"
| "step Date_new s Redo = snd (redo s)"
| "step Date_new s (Apply i) = snd (apply_scenario Date_new i s)"
| "step Date_new s (Evaluate now body) = s"
| "step Date_new s (Other d n) = s\<lparr>db := d, assignmentSeq := n\<rparr>"

definition run :: "(string \<Rightarrow> jsdate option) \<Rightarrow> state \<Rightarrow> request list \<Rightarrow> state" where
  "run Date_new s rs = foldl (step Date_new) s rs"

text \<open>The process starts with both history arrays empty, whatever the tables hold.\<close>

definition initial :: "store \<Rightarrow> nat \<Rightarrow> state" where
  "initial d n = \<lparr>db = d, assignmentSeq = n, undoStack = [], redoStack = []\<rparr>"

text \<open>A run of assign calls, with the reply of each.\<close>

fun assign_all :: "(string \<Rightarrow> jsdate option) \<Rightarrow> (nat \<times> ScenarioAssignment) list \<Rightarrow> state \<Rightarrow> (error + assign_response) list \<times> state" where
  "assign_all Date_new [] s = ([], s)"
| "assign_all Date_new (r # rs) s =
     (case assign Date_new (fst r) (snd r) s of
        (x, s1) \<Rightarrow> (case assign_all Date_new rs s1 of (xs, s2) \<Rightarrow> (x # xs, s2)))"

section \<open>Forecast\<close>

text \<open>
  \<^verbatim>\<open>GET /api/analytics/forecast\<close>. \<open>shopStats\<close> is a \<^verbatim>\<open>Map\<close> from shop id to a
  counter and a \<^verbatim>\<open>Set\<close> of month keys, kept as a list without repetition. The handler
  reads the clock through \<^verbatim>\<open>Date\<close> arithmetic that is taken as given: \<open>sixMonthsAgo\<close> is
  \<^verbatim>\<open>new Date()\<close> after \<^verbatim>\<open>setMonth(getMonth() - 6)\<close>, and \<open>monthKey i\<close> is the month key
  of the clock after \<open>i + 1\<close> steps of \<^verbatim>\<open>setMonth(getMonth() + 1)\<close>. \<open>monthsParam\<close> is
  \<^verbatim>\<open>parseInt(req.query.months)\<close>, \<open>None\<close> for \<^verbatim>\<open>NaN\<close>.
\<close>

record shop_stats =
  total :: nat
  months :: "string list"

definition add_stats :: "(nat \<rightharpoonup> shop_stats) \<Rightarrow> assignment \<Rightarrow> (nat \<rightharpoonup> shop_stats)" where
  "add_stats m a =
     (let monthKey = toISOString_7 (asg_month a);
          stats = (case m (asg_shopId a) of Some st \<Rightarrow> st | None \<Rightarrow> \<lparr>total = 0, months = []\<rparr>)
      in m(asg_shopId a \<mapsto> \<lparr>total = total stats + 1, months = List.insert monthKey (months stats)\<rparr>))"

datatype forecast_status = over | near | good

record month_forecast =
  fc_month :: string
  projected :: int
  fc_capacity :: int
  fc_utilizationPercent :: jsnum
  fc_status :: forecast_status

record shop_forecast =
  fc_shopId :: nat
  fc_shopName :: string
  avgMonthlyAssignments :: jsnum
  forecastData :: "month_forecast list"

definition shop_forecast :: "int \<Rightarrow> (nat \<Rightarrow> string) \<Rightarrow> (nat \<rightharpoonup> shop_stats) \<Rightarrow> shop \<Rightarrow> shop_forecast" where
  "shop_forecast n monthKey shopStats sh =
     (let stats = (case shopStats (shop_id sh) of Some st \<Rightarrow> st | None \<Rightarrow> \<lparr>total = 0, months = []\<rparr>);
          avgPerMonth = (if length (months stats) > 0
                         then of_nat (total stats) / of_nat (length (months stats)) else (0 :: rat));
          p = math_round avgPerMonth
      in \<lparr>fc_shopId = shop_id sh, fc_shopName = shop_name sh,
          avgMonthlyAssignments = round2 (Num avgPerMonth),
          forecastData =
            map (\<lambda>i. \<lparr>fc_month = monthKey i, projected = p, fc_capacity = shop_capacity sh,
                       fc_utilizationPercent = round2 (js_times (js_div (nat p) (shop_capacity sh)) 100),
                       fc_status = (if p > shop_capacity sh then over
                                    else if of_int p \<ge> of_int (shop_capacity sh) * (8 / 10 :: rat) then near
                                    else good)\<rparr>)
                [0..<nat n]\<rparr>)"

definition forecast :: "int option \<Rightarrow> jsdate \<Rightarrow> (nat \<Rightarrow> string) \<Rightarrow> store \<Rightarrow> shop_forecast list" where
  "forecast monthsParam sixMonthsAgo monthKey d =
     (let n = (case monthsParam of None \<Rightarrow> 6 | Some k \<Rightarrow> if k = 0 then 6 else k);
          historicalAssignments = filter (\<lambda>a. date_le sixMonthsAgo (asg_month a)) (assignments d);
          shopStats = foldl add_stats Map.empty historicalAssignments
      in map (shop_forecast n monthKey shopStats) (shops d))"

section \<open>Concrete schedules\<close>

text \<open>
  The boundary case of the evaluation: a shop of capacity 50 with 40 assignments in
  December 2024, and ten more proposed for the same month.
\<close>

definition december_2024 :: jsdate where
  "december_2024 = \<lparr>dyear = 2024, dmonth = 12, drest = 0\<rparr>"

definition shop_A :: shop where
  "shop_A = \<lparr>shop_id = 1, shop_name = ''Shop-A'', shop_capacity = 50\<rparr>"

definition boundary_ledger :: store where
  "boundary_ledger =
     \<lparr>cars = map (\<lambda>i. \<lparr>car_id = i, car_status = ''scheduled''\<rparr>) [1..<41] @
              map (\<lambda>i. \<lparr>car_id = i, car_status = ''unscheduled''\<rparr>) [41..<51],
      shops = [shop_A],
      assignments =
        map (\<lambda>i. \<lparr>asg_id = i, asg_carId = i, asg_shopId = 1, asg_month = december_2024\<rparr>) [1..<41],
      scenarios = []\<rparr>"

definition boundary_proposed :: "ScenarioAssignment list" where
  "boundary_proposed = map (\<lambda>i. \<lparr>carId = i, shopId = 1, month = ''2024-12-01''\<rparr>) [41..<51]"

text \<open>
  Three clocks: December 2025 and January 2026 in a zone not ahead of UTC, and January
  2026 in a zone ahead of it.
\<close>

definition clock_dec_2025 :: jsnow where
  "clock_dec_2025 = \<lparr>getFullYear = 2025, getMonth = 11, aheadOfUTC = False\<rparr>"

definition clock_jan_2026 :: jsnow where
  "clock_jan_2026 = \<lparr>getFullYear = 2026, getMonth = 0, aheadOfUTC = False\<rparr>"

definition clock_jan_2026_east :: jsnow where
  "clock_jan_2026_east = \<lparr>getFullYear = 2026, getMonth = 0, aheadOfUTC = True\<rparr>"

text \<open>A store with two shops, one car and no assignment.\<close>

definition shop_B :: shop where
  "shop_B = \<lparr>shop_id = 2, shop_name = ''Shop-B'', shop_capacity = 10\<rparr>"

definition idle_store :: store where
  "idle_store =
     \<lparr>cars = [\<lparr>car_id = 1, car_status = ''unscheduled''\<rparr>],
      shops = [shop_A, shop_B], assignments = [], scenarios = []\<rparr>"

text \<open>
  The value of \<^verbatim>\<open>new Date(s)\<close> on the strings the examples use; a date-only ISO string
  is midnight UTC.
\<close>

definition sample_Date_new :: "string \<Rightarrow> jsdate option" where
  "sample_Date_new s =
     (if s = ''2025-01-01'' then Some \<lparr>dyear = 2025, dmonth = 1, drest = 0\<rparr>
      else if s = ''2025-02-01'' then Some \<lparr>dyear = 2025, dmonth = 2, drest = 0\<rparr>
      else None)"

text \<open>A store with 51 cars and one shop, and one assign request for each car.\<close>

definition fleet_store :: store where
  "fleet_store =
     \<lparr>cars = map (\<lambda>i. \<lparr>car_id = i, car_status = ''unscheduled''\<rparr>) [1..<52],
      shops = [shop_A], assignments = [], scenarios = []\<rparr>"

definition fleet_requests :: "(nat \<times> ScenarioAssignment) list" where
  "fleet_requests =
     map (\<lambda>i. (1735689600000 + i, \<lparr>carId = i, shopId = 1, month = ''2025-01-01''\<rparr>)) [1..<52]"

text \<open>
  A shop of capacity 1 that already holds car 1 in January 2025, and a second car.
\<close>

definition january_2025 :: jsdate where
  "january_2025 = \<lparr>dyear = 2025, dmonth = 1, drest = 0\<rparr>"



text \<open>
  One car assigned in a fresh process, the assignment undone, and redone.
\<close>

definition first_request :: ScenarioAssignment where
  "first_request = \<lparr>carId = 1, shopId = 1, month = ''2025-01-01''\<rparr>"

definition after_assign :: state where
  "after_assign = snd (assign sample_Date_new 1735689600000 first_request (initial idle_store 1))"

definition after_undo :: state where
  "after_undo = snd (undo after_assign)"

definition after_redo :: state where
  "after_redo = snd (redo after_undo)"

text \<open>
  Two requests made after the undo: one for the same car in another shop and month, and
  one for a car that does not exist.
\<close>

definition second_request :: ScenarioAssignment where
  "second_request = \<lparr>carId = 1, shopId = 2, month = ''2025-02-01''\<rparr>"

definition ghost_request :: ScenarioAssignment where
  "ghost_request = \<lparr>carId = 7, shopId = 1, month = ''2025-02-01''\<rparr>"

text \<open>
  Two stored scenarios over the idle store: the first proposes car 1 twice, for two
  months; the second proposes it once and then for a shop that does not exist.
\<close>

definition sound_plan :: scenario where
  "sound_plan =
     \<lparr>scenario_id = 1, scenario_name = ''sound'',
      scenario_data = Some [first_request, second_request]\<rparr>"

definition broken_plan :: scenario where
  "broken_plan =
     \<lparr>scenario_id = 2, scenario_name = ''broken'',
      scenario_data = Some [first_request, \<lparr>carId = 1, shopId = 9, month = ''2025-02-01''\<rparr>]\<rparr>"

definition plan_store :: store where
  "plan_store = idle_store\<lparr>scenarios := [sound_plan, broken_plan]\<rparr>"

text \<open>
  A forecast asked for on 15 June 2025 at midnight UTC: six months earlier is 15 December
  2024, and the months that follow June are July to December. The store holds three
  assignments, all for December 2025.
\<close>

definition mid_june_2025 :: jsdate where
  "mid_june_2025 = \<lparr>dyear = 2025, dmonth = 6, drest = 1209600000\<rparr>"

definition mid_december_2024 :: jsdate where
  "mid_december_2024 = \<lparr>dyear = 2024, dmonth = 12, drest = 1209600000\<rparr>"

definition months_after_june_2025 :: "nat \<Rightarrow> string" where
  "months_after_june_2025 i = iso_month_key 2025 (7 + i)"

definition december_2025 :: jsdate where
  "december_2025 = \<lparr>dyear = 2025, dmonth = 12, drest = 0\<rparr>"

definition booked_ahead :: store where
  "booked_ahead =
     \<lparr>cars = [\<lparr>car_id = 1, car_status = ''scheduled''\<rparr>, \<lparr>car_id = 2, car_status = ''scheduled''\<rparr>,
              \<lparr>car_id = 3, car_status = ''scheduled''\<rparr>],
      shops = [shop_B],
      assignments =
        [\<lparr>asg_id = 1, asg_carId = 1, asg_shopId = 2, asg_month = december_2025\<rparr>,
         \<lparr>asg_id = 2, asg_carId = 2, asg_shopId = 2, asg_month = december_2025\<rparr>,
         \<lparr>asg_id = 3, asg_carId = 3, asg_shopId = 2, asg_month = december_2025\<rparr>],
      scenarios = []\<rparr>"




text \<open>Two shops that no assignment names, of capacity 0 and of capacity -5.\<close>

definition shop_Z :: shop where
  "shop_Z = \<lparr>shop_id = 1, shop_name = ''Shop-Z'', shop_capacity = 0\<rparr>"

definition shop_N :: shop where
  "shop_N = \<lparr>shop_id = 2, shop_name = ''Shop-N'', shop_capacity = - 5\<rparr>"

definition odd_store :: store where
  "odd_store = \<lparr>cars = [], shops = [shop_Z, shop_N], assignments = [], scenarios = []\<rparr>"

text \<open>An evaluation result with the \<open>earliestSlot\<close> of every shop blanked.\<close>

definition without_slots :: "EvaluationResult \<Rightarrow> EvaluationResult" where
  "without_slots r = r\<lparr>fitResults := map (\<lambda>f. f\<lparr>earliestSlot := []\<rparr>) (fitResults r)\<rparr>"

text \<open>
  The actions a run of assign calls pushes: one \<^verbatim>\<open>create\<close> action for each call that
  succeeded, holding the assignment of its reply and the time of the call.
\<close>

fun logged :: "(nat \<times> ScenarioAssignment) list \<Rightarrow> (error + assign_response) list \<Rightarrow> HistoryAction list" where
  "logged (q # qs) (Inr x # rs) = \<lparr>htype = Create, hdata = data x, timestamp = fst q\<rparr> # logged qs rs"
| "logged (q # qs) (Inl e # rs) = logged qs rs"
| "logged qs rs = []"

text \<open>The two history arrays together hold no more than \<open>MAX_HISTORY\<close> actions.\<close>

definition history_bounded :: "state \<Rightarrow> bool" where
  "history_bounded s = (length (undoStack s) + length (redoStack s) \<le> MAX_HISTORY)"

section \<open>Properties of the evaluation\<close>

lemma floor_half: "\<lfloor>1 / 2 :: rat\<rfloor> = 0"
  by (rule floor_unique) simp_all

lemma foldl_add_current_same:
  "\<forall>a\<in>set xs. toISOString_7 (asg_month a) = P \<Longrightarrow>
   foldl add_current [(P, c)] xs = [(P, c\<lparr>current := current c + length xs\<rparr>)]"
  by (induction xs arbitrary: c) (simp_all add: add_current_def map_get_or_zero_def)

lemma foldl_add_scenario_same:
  "\<forall>a\<in>set xs. take 7 (month a) = P \<Longrightarrow>
   foldl add_scenario [(P, c)] xs = [(P, c\<lparr>scenario := scenario c + length xs\<rparr>)]"
  by (induction xs arbitrary: c) (simp_all add: add_scenario_def map_get_or_zero_def)

lemma foldl_add_current_start:
  "\<forall>a\<in>set xs. toISOString_7 (asg_month a) = P \<Longrightarrow> xs \<noteq> [] \<Longrightarrow>
   foldl add_current [] xs = [(P, \<lparr>current = length xs, scenario = 0\<rparr>)]"
  by (cases xs) (simp_all add: add_current_def map_get_or_zero_def foldl_add_current_same)

lemma foldl_add_scenario_start:
  "\<forall>a\<in>set xs. take 7 (month a) = P \<Longrightarrow> xs \<noteq> [] \<Longrightarrow>
   foldl add_scenario [] xs = [(P, \<lparr>current = 0, scenario = length xs\<rparr>)]"
  by (cases xs) (simp_all add: add_scenario_def map_get_or_zero_def foldl_add_scenario_same)

lemma monthlyData_single_period:
  assumes c: "\<forall>a\<in>set cur. asg_shopId a = shop_id sh \<longrightarrow> toISOString_7 (asg_month a) = P"
    and p: "\<forall>a\<in>set prop. shopId a = shop_id sh \<longrightarrow> take 7 (month a) = P"
    and n: "0 < length (filter (\<lambda>a. asg_shopId a = shop_id sh) cur)"
  shows "monthlyData cur prop sh =
     [(P, \<lparr>current = length (filter (\<lambda>a. asg_shopId a = shop_id sh) cur),
            scenario = length (filter (\<lambda>a. shopId a = shop_id sh) prop)\<rparr>)]"
proof -
  let ?cs = "filter (\<lambda>a. asg_shopId a = shop_id sh) cur"
  let ?ps = "filter (\<lambda>a. shopId a = shop_id sh) prop"
  have c': "\<forall>a\<in>set ?cs. toISOString_7 (asg_month a) = P" using c by simp
  have p': "\<forall>a\<in>set ?ps. take 7 (month a) = P" using p by simp
  have ne: "?cs \<noteq> []" using n by auto
  show ?thesis
    unfolding monthlyData_def
    by (simp only: foldl_add_current_start [OF c' ne] foldl_add_scenario_same [OF p']) simp
qed

lemma monthlyData_untouched:
  assumes "\<forall>a\<in>set cur. asg_shopId a \<noteq> shop_id sh" "\<forall>a\<in>set prop. shopId a \<noteq> shop_id sh"
  shows "monthlyData cur prop sh = []"
proof -
  have "filter (\<lambda>a. asg_shopId a = shop_id sh) cur = []" using assms(1) by (simp add: filter_empty_conv)
  moreover have "filter (\<lambda>a. shopId a = shop_id sh) prop = []" using assms(2) by (simp add: filter_empty_conv)
  ultimately show ?thesis by (simp add: monthlyData_def)
qed

lemma scan_months_single:
  "scan_months cap [(P, c)] =
     (let total = current c + scenario c
      in \<lparr>maxTotal = total,
          maxOverload = (if int total > cap then int total - cap else 0),
          slot = (if int total < cap then Some P else None)\<rparr>)"
  by (simp add: scan_months_def scan_step_def unset_def Let_def)

lemma shop_fit_single_period:
  assumes c: "\<forall>a\<in>set cur. asg_shopId a = shop_id sh \<longrightarrow> toISOString_7 (asg_month a) = P"
    and p: "\<forall>a\<in>set prop. shopId a = shop_id sh \<longrightarrow> take 7 (month a) = P"
    and n: "length (filter (\<lambda>a. asg_shopId a = shop_id sh) cur) = 40"
    and m: "length (filter (\<lambda>a. shopId a = shop_id sh) prop) = 10"
    and cap: "shop_capacity sh = 50"
  shows "totalAssigned (shop_fit now cur prop sh) = 50 \<and>
         utilizationPercent (shop_fit now cur prop sh) = Num 100 \<and>
         status (shop_fit now cur prop sh) = yellow"
proof -
  have n0: "0 < length (filter (\<lambda>a. asg_shopId a = shop_id sh) cur)" using n by simp
  show ?thesis
    by (simp add: shop_fit_def monthlyData_single_period [OF c p n0] scan_months_single n m cap
        js_div_def js_times_def js_ge_def round2_def unset_def floor_half Let_def)
qed

lemma shop_fit_untouched_counts:
  assumes "\<forall>a\<in>set cur. asg_shopId a \<noteq> shop_id sh" "\<forall>a\<in>set prop. shopId a \<noteq> shop_id sh"
  shows "totalAssigned (shop_fit now cur prop sh) = 0 \<and> overload (shop_fit now cur prop sh) = 0"
  by (simp add: shop_fit_def monthlyData_untouched [OF assms] scan_months_def Let_def)

lemma shop_fit_untouched:
  assumes "\<forall>a\<in>set cur. asg_shopId a \<noteq> shop_id sh" "\<forall>a\<in>set prop. shopId a \<noteq> shop_id sh"
    and "0 < shop_capacity sh"
  shows "utilizationPercent (shop_fit now cur prop sh) = Num 0 \<and>
         status (shop_fit now cur prop sh) = green"
  using assms(3)
  by (simp add: shop_fit_def monthlyData_untouched [OF assms(1,2)] scan_months_def
        js_div_def js_times_def js_ge_def round2_def unset_def floor_half Let_def)

lemma evaluate_shops:
  "evaluate now (Some prop) d = Inr res \<Longrightarrow>
   fitResults res = map (shop_fit now (assignments d) prop) (shops d)"
  by (auto simp: evaluate_def Let_def)

lemma evaluate_no_shops:
  "shops d = [] \<Longrightarrow> evaluate now (Some prop) d = Inr res \<Longrightarrow> fitScore res = Num 0"
  by (auto simp: evaluate_def Let_def round2_def floor_half)

lemma shop_fit_id: "fr_shopId (shop_fit now cur prop sh) = shop_id sh"
  by (simp add: shop_fit_def Let_def)

lemma boundary_committed:
  "\<forall>a\<in>set (assignments boundary_ledger).
      asg_shopId a = shop_id shop_A \<longrightarrow> toISOString_7 (asg_month a) = ''2024-12''"
  by (simp add: boundary_ledger_def shop_A_def december_2024_def toISOString_7_def
        iso_month_key_def pad2_def pad4_def digit_def)

lemma boundary_proposed_keys:
  "\<forall>a\<in>set boundary_proposed. shopId a = shop_id shop_A \<longrightarrow> take 7 (month a) = ''2024-12''"
  by (simp add: boundary_proposed_def shop_A_def)

lemma boundary_committed_count:
  "length (filter (\<lambda>a. asg_shopId a = shop_id shop_A) (assignments boundary_ledger)) = 40"
  by (simp add: boundary_ledger_def shop_A_def filter_map o_def)

lemma boundary_proposed_count:
  "length (filter (\<lambda>a. shopId a = shop_id shop_A) boundary_proposed) = 10"
  by (simp add: boundary_proposed_def shop_A_def filter_map o_def)

text \<open>
  C1 (as amended). A shop of capacity 50 whose committed assignments number 40, all in
  period \<open>P\<close>, evaluated with 10 proposed assignments, all in \<open>P\<close>: the evaluation
  succeeds, and the shop's entry has \<open>totalAssigned = 50\<close> and
  \<open>utilizationPercent = 100\<close>; its status is \<open>yellow\<close>, since 100 is at least 80 and 50
  does not exceed the capacity.
\<close>

theorem evaluate_boundary_is_yellow:
  assumes "sh \<in> set (shops d)"
    and "shop_capacity sh = 50"
    and "\<forall>a\<in>set (assignments d). asg_shopId a = shop_id sh \<longrightarrow> toISOString_7 (asg_month a) = P"
    and "length (filter (\<lambda>a. asg_shopId a = shop_id sh) (assignments d)) = 40"
    and "\<forall>a\<in>set proposed. shopId a = shop_id sh \<longrightarrow> take 7 (month a) = P"
    and "length (filter (\<lambda>a. shopId a = shop_id sh) proposed) = 10"
  shows "\<exists>res r. evaluate now (Some proposed) d = Inr res \<and> r \<in> set (fitResults res) \<and>
           fr_shopId r = shop_id sh \<and> totalAssigned r = 50 \<and>
           utilizationPercent r = Num 100 \<and> status r = yellow"
proof -
  obtain res where res: "evaluate now (Some proposed) d = Inr res"
    by (simp add: evaluate_def Let_def)
  let ?r = "shop_fit now (assignments d) proposed sh"
  have "?r \<in> set (fitResults res)"
    using assms(1) by (simp add: evaluate_shops [OF res])
  moreover have "totalAssigned ?r = 50 \<and> utilizationPercent ?r = Num 100 \<and> status ?r = yellow"
    by (rule shop_fit_single_period [OF assms(3) assms(5) assms(4) assms(6) assms(2)])
  ultimately show ?thesis
    using res shop_fit_id by blast
qed

theorem evaluate_boundary_is_yellow_witness:
  "\<exists>res r. evaluate clock_dec_2025 (Some boundary_proposed) boundary_ledger = Inr res \<and>
     r \<in> set (fitResults res) \<and> fr_shopId r = shop_id shop_A \<and> totalAssigned r = 50 \<and>
     utilizationPercent r = Num 100 \<and> status r = yellow"
proof -
  have sh: "shop_A \<in> set (shops boundary_ledger)" by (simp add: boundary_ledger_def)
  have cap: "shop_capacity shop_A = 50" by (simp add: shop_A_def)
  show ?thesis
    by (rule evaluate_boundary_is_yellow [OF sh cap boundary_committed boundary_committed_count
          boundary_proposed_keys boundary_proposed_count])
qed

theorem evaluate_boundary_not_green:
  "\<exists>res. evaluate clock_dec_2025 (Some boundary_proposed) boundary_ledger = Inr res \<and>
     map totalAssigned (fitResults res) = [50] \<and>
     map utilizationPercent (fitResults res) = [Num 100] \<and>
     map status (fitResults res) = [yellow] \<and>
     map status (fitResults res) \<noteq> [green]"
proof -
  obtain res where res: "evaluate clock_dec_2025 (Some boundary_proposed) boundary_ledger = Inr res"
    by (simp add: evaluate_def Let_def)
  have fr: "fitResults res =
      [shop_fit clock_dec_2025 (assignments boundary_ledger) boundary_proposed shop_A]"
    by (simp add: evaluate_shops [OF res]) (simp add: boundary_ledger_def)
  have cap: "shop_capacity shop_A = 50" by (simp add: shop_A_def)
  note f = shop_fit_single_period [OF boundary_committed boundary_proposed_keys
      boundary_committed_count boundary_proposed_count cap, of clock_dec_2025]
  show ?thesis using res fr f by simp
qed

text \<open>
  C10 (as amended). Every evaluation with a proposed list succeeds and reports the shops
  of the store one for one, in order. A shop that no committed and no proposed
  assignment names is reported with \<open>totalAssigned = 0\<close> and \<open>overload = 0\<close>, and, when
  its capacity is positive, with \<open>utilizationPercent = 0\<close> and status \<open>green\<close>. With no
  shop at all the fit score is 0.
\<close>

theorem evaluate_reports_every_shop:
  "\<exists>res. evaluate now (Some proposed) d = Inr res \<and>
     length (fitResults res) = length (shops d) \<and>
     map fr_shopId (fitResults res) = map shop_id (shops d) \<and>
     (\<forall>i < length (shops d).
        (\<forall>a\<in>set (assignments d). asg_shopId a \<noteq> shop_id (shops d ! i)) \<longrightarrow>
        (\<forall>a\<in>set proposed. shopId a \<noteq> shop_id (shops d ! i)) \<longrightarrow>
        totalAssigned (fitResults res ! i) = 0 \<and> overload (fitResults res ! i) = 0 \<and>
        (0 < shop_capacity (shops d ! i) \<longrightarrow>
           utilizationPercent (fitResults res ! i) = Num 0 \<and> status (fitResults res ! i) = green)) \<and>
     (shops d = [] \<longrightarrow> fitScore res = Num 0)"
proof -
  obtain res where res: "evaluate now (Some proposed) d = Inr res"
    by (simp add: evaluate_def Let_def)
  have fr: "fitResults res = map (shop_fit now (assignments d) proposed) (shops d)"
    by (rule evaluate_shops [OF res])
  have ids: "map fr_shopId (fitResults res) = map shop_id (shops d)"
    by (simp add: fr shop_fit_id)
  have untouched: "totalAssigned (fitResults res ! i) = 0 \<and> overload (fitResults res ! i) = 0 \<and>
        (0 < shop_capacity (shops d ! i) \<longrightarrow>
           utilizationPercent (fitResults res ! i) = Num 0 \<and> status (fitResults res ! i) = green)"
    if "i < length (shops d)"
      and "\<forall>a\<in>set (assignments d). asg_shopId a \<noteq> shop_id (shops d ! i)"
      and "\<forall>a\<in>set proposed. shopId a \<noteq> shop_id (shops d ! i)" for i
    using shop_fit_untouched_counts [OF that(2) that(3), of now]
      shop_fit_untouched [OF that(2) that(3), of now] that(1)
    by (simp add: fr)
  have none: "fitScore res = Num 0" if "shops d = []"
    by (rule evaluate_no_shops [OF that res])
  show ?thesis
    using res fr ids untouched none by auto
qed

theorem evaluate_reports_every_shop_witness:
  "\<exists>res. evaluate clock_dec_2025 (Some []) idle_store = Inr res \<and>
     map fr_shopId (fitResults res) = [1, 2] \<and>
     totalAssigned (fitResults res ! 1) = 0 \<and> overload (fitResults res ! 1) = 0 \<and>
     utilizationPercent (fitResults res ! 1) = Num 0 \<and> status (fitResults res ! 1) = green"
  using evaluate_reports_every_shop [of clock_dec_2025 "[]" idle_store]
  by (auto simp: idle_store_def shop_A_def shop_B_def)

text \<open>
  Nothing keeps a capacity positive. An untouched shop of capacity 0 is reported with
  the utilization \<open>0 / 0\<close>, and an untouched shop of negative capacity with status
  \<open>red\<close>, zero assignments exceeding its capacity.
\<close>

theorem evaluate_untouched_without_capacity:
  "\<exists>res. evaluate clock_dec_2025 (Some []) odd_store = Inr res \<and>
     map totalAssigned (fitResults res) = [0, 0] \<and>
     map utilizationPercent (fitResults res) = [NaN, Num 0] \<and>
     map status (fitResults res) = [green, red] \<and>
     utilizationPercent (fitResults res ! 0) \<noteq> Num 0 \<and>
     status (fitResults res ! 1) \<noteq> green"
proof -
  obtain res where res: "evaluate clock_dec_2025 (Some []) odd_store = Inr res"
    by (simp add: evaluate_def Let_def)
  have z: "shop_fit clock_dec_2025 [] [] shop_Z =
      \<lparr>fr_shopId = 1, shopName = ''Shop-Z'', capacity = 0, currentAssigned = 0,
        scenarioAssigned = 0, totalAssigned = 0, utilizationPercent = NaN, status = green,
        overload = 0, earliestSlot = next_month_slot clock_dec_2025\<rparr>"
    by (simp add: shop_fit_def monthlyData_def scan_months_def shop_Z_def js_div_def js_times_def
        js_ge_def round2_def unset_def Let_def)
  have n: "shop_fit clock_dec_2025 [] [] shop_N =
      \<lparr>fr_shopId = 2, shopName = ''Shop-N'', capacity = - 5, currentAssigned = 0,
        scenarioAssigned = 0, totalAssigned = 0, utilizationPercent = Num 0, status = red,
        overload = 0, earliestSlot = next_month_slot clock_dec_2025\<rparr>"
    by (simp add: shop_fit_def monthlyData_def scan_months_def shop_N_def js_div_def js_times_def
        js_ge_def round2_def unset_def floor_half Let_def)
  have "fitResults res =
      [shop_fit clock_dec_2025 [] [] shop_Z, shop_fit clock_dec_2025 [] [] shop_N]"
    by (simp add: evaluate_shops [OF res]) (simp add: odd_store_def)
  then show ?thesis using res by (simp add: z n)
qed

lemma shop_fit_clock:
  "shop_fit n1 cur prop sh =
     (shop_fit n2 cur prop sh)\<lparr>earliestSlot := earliestSlot (shop_fit n1 cur prop sh)\<rparr>"
  by (simp add: shop_fit_def Let_def)

lemma shop_fit_same_slot:
  "next_month_slot n1 = next_month_slot n2 \<Longrightarrow> shop_fit n1 = shop_fit n2"
  by (intro ext) (simp add: shop_fit_def Let_def)

lemma shop_fit_status_clock: "status (shop_fit n1 cur prop sh) = status (shop_fit n2 cur prop sh)"
  by (simp add: shop_fit_def Let_def)

lemma shop_fit_overload_clock: "overload (shop_fit n1 cur prop sh) = overload (shop_fit n2 cur prop sh)"
  by (simp add: shop_fit_def Let_def)

lemma shop_fit_blank_clock:
  "(shop_fit n1 cur prop sh)\<lparr>earliestSlot := []\<rparr> = (shop_fit n2 cur prop sh)\<lparr>earliestSlot := []\<rparr>"
  by (simp add: shop_fit_def Let_def)

lemma count_status_clock:
  "count_status c (map (shop_fit n1 cur prop) xs) = count_status c (map (shop_fit n2 cur prop) xs)"
  by (induction xs) (simp_all add: count_status_def shop_fit_status_clock [of n1 _ _ _ n2])

lemma overload_sum_clock:
  "foldl (\<lambda>sum r. sum + overload r) z (map (shop_fit n1 cur prop) xs) =
   foldl (\<lambda>sum r. sum + overload r) z (map (shop_fit n2 cur prop) xs)"
  by (induction xs arbitrary: z) (simp_all add: shop_fit_overload_clock [of n1 _ _ _ n2])

text \<open>
  C2 (as amended). The evaluation reads the clock, and only for the fallback value of
  \<open>earliestSlot\<close>: two evaluations of the same ledger and the same body agree whenever
  their clocks give the same following month, and whatever the clocks they agree once
  every \<open>earliestSlot\<close> is blanked.
\<close>

theorem evaluate_reads_clock_for_slot_only:
  "(next_month_slot n1 = next_month_slot n2 \<longrightarrow> evaluate n1 body d = evaluate n2 body d) \<and>
   map_sum id without_slots (evaluate n1 body d) = map_sum id without_slots (evaluate n2 body d)"
proof (cases body)
  case None
  then show ?thesis by (simp add: evaluate_def)
next
  case (Some proposed)
  have same: "evaluate n1 body d = evaluate n2 body d" if "next_month_slot n1 = next_month_slot n2"
    by (simp add: evaluate_def Some shop_fit_same_slot [OF that])
  have blank: "map_sum id without_slots (evaluate n1 body d) =
      map_sum id without_slots (evaluate n2 body d)"
    by (simp add: evaluate_def Some Let_def without_slots_def
          count_status_clock [of _ n1 _ _ _ n2] overload_sum_clock [of _ n1 _ _ _ n2]
          shop_fit_blank_clock [of n1 _ _ _ n2])
  show ?thesis using same blank by blast
qed

theorem evaluate_reads_clock_for_slot_only_witness:
  "clock_dec_2025 \<noteq> clock_jan_2026_east \<and>
   evaluate clock_dec_2025 (Some []) idle_store = evaluate clock_jan_2026_east (Some []) idle_store"
proof -
  have "next_month_slot clock_dec_2025 = next_month_slot clock_jan_2026_east"
    by (simp add: next_month_slot_def clock_dec_2025_def clock_jan_2026_east_def)
  then show ?thesis
    using evaluate_reads_clock_for_slot_only [of clock_dec_2025 clock_jan_2026_east "Some []" idle_store]
    by (simp add: clock_dec_2025_def clock_jan_2026_east_def)
qed

lemma idle_slot:
  "earliestSlot (shop_fit now [] [] shop_A) = next_month_slot now"
  by (simp add: shop_fit_def monthlyData_def scan_months_def unset_def Let_def)

theorem evaluate_differs_across_months:
  "evaluate clock_dec_2025 (Some []) idle_store \<noteq> evaluate clock_jan_2026 (Some []) idle_store"
proof
  assume eq: "evaluate clock_dec_2025 (Some []) idle_store = evaluate clock_jan_2026 (Some []) idle_store"
  obtain r1 where r1: "evaluate clock_dec_2025 (Some []) idle_store = Inr r1"
    by (simp add: evaluate_def Let_def)
  have r2: "evaluate clock_jan_2026 (Some []) idle_store = Inr r1" using eq r1 by simp
  have "shop_fit clock_dec_2025 [] [] shop_A = shop_fit clock_jan_2026 [] [] shop_A"
    using evaluate_shops [OF r1] evaluate_shops [OF r2] by (simp add: idle_store_def)
  then have "next_month_slot clock_dec_2025 = next_month_slot clock_jan_2026"
    using idle_slot [of clock_dec_2025] idle_slot [of clock_jan_2026] by simp
  then show False
    by (simp add: next_month_slot_def clock_dec_2025_def clock_jan_2026_def iso_month_key_def
          pad2_def pad4_def digit_def)
qed

section \<open>Properties of the assignment service\<close>

lemma assignment_create_stacks:
  "assignment_create c sh m s = (r, s') \<Longrightarrow>
   undoStack s' = undoStack s \<and> redoStack s' = redoStack s"
  by (auto simp: assignment_create_def Let_def split: if_splits)

lemma assignment_delete_stacks:
  "assignment_delete i s = (r, s') \<Longrightarrow> undoStack s' = undoStack s \<and> redoStack s' = redoStack s"
  by (auto simp: assignment_delete_def split: if_splits)

lemma car_update_status_stacks:
  "car_update_status c st s = (r, s') \<Longrightarrow> undoStack s' = undoStack s \<and> redoStack s' = redoStack s"
  by (auto simp: car_update_status_def split: if_splits)

lemma delete_logged_stacks:
  "delete_logged a s = (r, s') \<Longrightarrow> undoStack s' = undoStack s \<and> redoStack s' = redoStack s"
  by (auto simp: delete_logged_def split: prod.splits sum.splits if_splits
      dest!: assignment_delete_stacks car_update_status_stacks)

lemma create_logged_stacks:
  "create_logged a s = (r, s') \<Longrightarrow> undoStack s' = undoStack s \<and> redoStack s' = redoStack s"
  by (auto simp: create_logged_def split: prod.splits sum.splits
      dest!: assignment_create_stacks car_update_status_stacks)

lemma history_reply_state: "history_reply msg (r, s) = (r', s') \<Longrightarrow> s' = s"
  by (auto simp: history_reply_def split: sum.splits)

lemma history_reply_snd: "snd (history_reply msg x) = snd x"
  by (cases x) (auto simp: history_reply_def split: sum.splits)

lemma delete_logged_snd:
  "undoStack (snd (delete_logged a s)) = undoStack s \<and> redoStack (snd (delete_logged a s)) = redoStack s"
  by (cases "delete_logged a s") (auto dest: delete_logged_stacks)

lemma create_logged_snd:
  "undoStack (snd (create_logged a s)) = undoStack s \<and> redoStack (snd (create_logged a s)) = redoStack s"
  by (cases "create_logged a s") (auto dest: create_logged_stacks)

lemma car_findUnique_frame: "car_findUnique (d\<lparr>assignments := x\<rparr>) c = car_findUnique d c"
  by (simp add: car_findUnique_def)

text \<open>What a successful assign did.\<close>

lemma assign_success:
  assumes "assign Date_new now body s = (Inr r, s')"
  shows "asg_id (data r) = assignmentSeq s"
    and "assignmentSeq s' = assignmentSeq s + 1"
    and "redoStack s' = []"
    and "undoStack s' =
           (if length (undoStack s) \<ge> MAX_HISTORY
            then tl (undoStack s @ [\<lparr>htype = Create, hdata = data r, timestamp = now\<rparr>])
            else undoStack s @ [\<lparr>htype = Create, hdata = data r, timestamp = now\<rparr>])"
  using assms
  by (auto simp: assign_def assignment_create_def car_update_status_def car_findUnique_frame
        addToHistory_def Let_def
      split: if_splits option.splits prod.splits sum.splits)

lemma assign_failure:
  assumes "assign Date_new now body s = (Inl e, s')"
  shows "undoStack s' = undoStack s \<and> redoStack s' = redoStack s"
  using assms
  by (auto simp: assign_def assignment_create_def car_update_status_def Let_def
      split: if_splits option.splits prod.splits sum.splits)

lemma addToHistory_redo: "redoStack (addToHistory a s) = []"
  by (simp add: addToHistory_def Let_def)

lemma addToHistory_undo:
  "undoStack (addToHistory a s) =
     (if length (undoStack s) \<ge> MAX_HISTORY then tl (undoStack s @ [a]) else undoStack s @ [a])"
  by (auto simp: addToHistory_def Let_def)

lemma addToHistory_seq: "assignmentSeq (addToHistory a s) = assignmentSeq s"
  by (simp add: addToHistory_def Let_def)

lemma addToHistory_bound:
  "length (undoStack s) \<le> MAX_HISTORY \<Longrightarrow> length (undoStack (addToHistory a s)) \<le> MAX_HISTORY"
  by (auto simp: addToHistory_undo)

lemma assign_bounded:
  assumes "history_bounded s" shows "history_bounded (snd (assign Date_new now body s))"
proof (cases "assign Date_new now body s")
  case (Pair r s')
  show ?thesis
  proof (cases r)
    case (Inl e)
    then show ?thesis using assign_failure [of Date_new now body s e s'] Pair assms
      by (simp add: history_bounded_def)
  next
    case (Inr x)
    then have "assign Date_new now body s = (Inr x, s')" using Pair by simp
    from assign_success(3,4) [OF this] show ?thesis using Pair assms
      by (auto simp: history_bounded_def)
  qed
qed

lemma unassign_bounded:
  assumes "history_bounded s" shows "history_bounded (snd (unassign now i s))"
proof (cases "assignment_findUnique (db s) i")
  case None
  then show ?thesis using assms by (simp add: unassign_def)
next
  case (Some a)
  let ?s1 = "addToHistory \<lparr>htype = Delete, hdata = a, timestamp = now\<rparr> s"
  have b: "history_bounded ?s1"
    using assms addToHistory_bound [of s] by (simp add: history_bounded_def addToHistory_redo)
  have "undoStack (snd (unassign now i s)) = undoStack ?s1 \<and>
        redoStack (snd (unassign now i s)) = redoStack ?s1"
    by (auto simp: unassign_def Some Let_def split: prod.splits sum.splits if_splits
        dest!: assignment_delete_stacks car_update_status_stacks)
  then show ?thesis using b by (simp add: history_bounded_def)
qed

lemma undo_stacks:
  "undoStack s \<noteq> [] \<Longrightarrow>
   undoStack (snd (undo s)) = butlast (undoStack s) \<and>
   redoStack (snd (undo s)) = redoStack s @ [last (undoStack s)]"
  by (simp add: undo_def Let_def history_reply_snd delete_logged_snd create_logged_snd)


lemma redo_stacks:
  "redoStack s \<noteq> [] \<Longrightarrow>
   redoStack (snd (redo s)) = butlast (redoStack s) \<and>
   undoStack (snd (redo s)) = undoStack s @ [last (redoStack s)]"
  by (simp add: redo_def Let_def history_reply_snd delete_logged_snd create_logged_snd)

lemma undo_bounded:
  assumes "history_bounded s" shows "history_bounded (snd (undo s))"
proof (cases "undoStack s = []")
  case True
  then show ?thesis using assms by (simp add: undo_def)
next
  case False
  then obtain u a where ua: "undoStack s = u @ [a]" by (meson rev_exhaust)
  show ?thesis using assms undo_stacks [OF False] by (simp add: history_bounded_def ua)
qed

lemma redo_bounded:
  assumes "history_bounded s" shows "history_bounded (snd (redo s))"
proof (cases "redoStack s = []")
  case True
  then show ?thesis using assms by (simp add: redo_def)
next
  case False
  then obtain u a where ua: "redoStack s = u @ [a]" by (meson rev_exhaust)
  show ?thesis using assms redo_stacks [OF False] by (simp add: history_bounded_def ua)
qed

lemma apply_loop_stacks:
  "apply_loop Date_new xs created s = (r, s') \<Longrightarrow>
   undoStack s' = undoStack s \<and> redoStack s' = redoStack s"
proof (induction xs arbitrary: created s)
  case Nil
  then show ?case by simp
next
  case (Cons a xs)
  then show ?case
    by (auto split: option.splits prod.splits sum.splits
        dest!: assignment_create_stacks car_update_status_stacks)
qed

lemma apply_scenario_stacks:
  "undoStack (snd (apply_scenario Date_new i s)) = undoStack s \<and>
   redoStack (snd (apply_scenario Date_new i s)) = redoStack s"
  by (auto simp: apply_scenario_def transaction_def
      split: option.splits prod.splits sum.splits dest!: apply_loop_stacks)

lemma step_bounded: "history_bounded s \<Longrightarrow> history_bounded (step Date_new s r)"
  by (cases r)
    (simp_all add: assign_bounded unassign_bounded undo_bounded redo_bounded,
     simp_all add: history_bounded_def apply_scenario_stacks)

lemma run_bounded: "history_bounded s \<Longrightarrow> history_bounded (run Date_new s rs)"
  unfolding run_def by (induction rs arbitrary: s) (simp_all add: step_bounded)

lemma initial_bounded: "history_bounded (initial d n)"
  by (simp add: history_bounded_def initial_def)


lemma assign_success_db:
  assumes "assign Date_new now body s = (Inr r, s')"
  shows "assignments (db s') = assignments (db s) @ [data r]"
    and "shops (db s') = shops (db s)"
    and "scenarios (db s') = scenarios (db s)"
    and "cars (db s') =
           map (\<lambda>c. if car_id c = carId body then c\<lparr>car_status := ''scheduled''\<rparr> else c) (cars (db s))"
    and "asg_carId (data r) = carId body"
    and "asg_shopId (data r) = shopId body"
    and "Date_new (month body) = Some (asg_month (data r))"
    and "\<exists>sh. shop_findUnique (db s) (shopId body) = Some sh \<and>
           warning r =
             (if int (assignment_count_shop_month (db s) (shopId body) (asg_month (data r))) \<ge> shop_capacity sh
              then Some (''Shop '' @ shop_name sh @ '' is over capacity for this month'') else None)"
  using assms
  by (auto simp: assign_def assignment_create_def car_update_status_def car_findUnique_frame
        addToHistory_def Let_def
      split: if_splits option.splits prod.splits sum.splits)

lemma assign_ok:
  assumes "carId body \<noteq> 0" "shopId body \<noteq> 0" "month body \<noteq> []"
    and "car_findUnique (db s) (carId body) = Some c"
    and "shop_findUnique (db s) (shopId body) = Some sh"
    and "Date_new (month body) = Some d"
    and "assignment_findUnique_carId_month (db s) (carId body) d = None"
  shows "\<exists>r s'. assign Date_new now body s = (Inr r, s')"
  using assms
  by (simp add: assign_def assignment_create_def car_update_status_def car_findUnique_frame Let_def)




lemmas store_ops =
  car_findUnique_def shop_findUnique_def assignment_findUnique_def
  assignment_findUnique_carId_month_def assignment_count_shop_month_def assignment_count_car_def
  assignment_create_def assignment_delete_def car_update_status_def


lemma first_assignment:
  "assign sample_Date_new 1735689600000 first_request (initial idle_store 1) =
     (Inr \<lparr>data = \<lparr>asg_id = 1, asg_carId = 1, asg_shopId = 1, asg_month = january_2025\<rparr>,
           warning = None\<rparr>,
      \<lparr>db = \<lparr>cars = [\<lparr>car_id = 1, car_status = ''scheduled''\<rparr>], shops = [shop_A, shop_B],
              assignments = [\<lparr>asg_id = 1, asg_carId = 1, asg_shopId = 1, asg_month = january_2025\<rparr>],
              scenarios = []\<rparr>,
        assignmentSeq = 2,
        undoStack = [\<lparr>htype = Create,
                      hdata = \<lparr>asg_id = 1, asg_carId = 1, asg_shopId = 1, asg_month = january_2025\<rparr>,
                      timestamp = 1735689600000\<rparr>],
        redoStack = []\<rparr>)"
  by (simp add: assign_def first_request_def initial_def idle_store_def shop_A_def shop_B_def
      sample_Date_new_def january_2025_def store_ops addToHistory_def MAX_HISTORY_def Let_def)

lemma after_assign_eq:
  "after_assign =
      \<lparr>db = \<lparr>cars = [\<lparr>car_id = 1, car_status = ''scheduled''\<rparr>], shops = [shop_A, shop_B],
              assignments = [\<lparr>asg_id = 1, asg_carId = 1, asg_shopId = 1, asg_month = january_2025\<rparr>],
              scenarios = []\<rparr>,
        assignmentSeq = 2,
        undoStack = [\<lparr>htype = Create,
                      hdata = \<lparr>asg_id = 1, asg_carId = 1, asg_shopId = 1, asg_month = january_2025\<rparr>,
                      timestamp = 1735689600000\<rparr>],
        redoStack = []\<rparr>"
  by (simp only: after_assign_def first_assignment snd_conv)

lemma after_undo_eq:
  "undo after_assign =
     (Inr \<lparr>message = ''Action undone'', undoStackSize = 0, redoStackSize = 1\<rparr>,
      \<lparr>db = \<lparr>cars = [\<lparr>car_id = 1, car_status = ''unscheduled''\<rparr>], shops = [shop_A, shop_B],
              assignments = [], scenarios = []\<rparr>,
        assignmentSeq = 2,
        undoStack = [],
        redoStack = [\<lparr>htype = Create,
                      hdata = \<lparr>asg_id = 1, asg_carId = 1, asg_shopId = 1, asg_month = january_2025\<rparr>,
                      timestamp = 1735689600000\<rparr>]\<rparr>)"
  by (simp add: after_assign_eq undo_def delete_logged_def history_reply_def store_ops Let_def)

lemma after_redo_eq:
  "redo after_undo =
     (Inr \<lparr>message = ''Action redone'', undoStackSize = 1, redoStackSize = 0\<rparr>,
      \<lparr>db = \<lparr>cars = [\<lparr>car_id = 1, car_status = ''scheduled''\<rparr>], shops = [shop_A, shop_B],
              assignments = [\<lparr>asg_id = 2, asg_carId = 1, asg_shopId = 1, asg_month = january_2025\<rparr>],
              scenarios = []\<rparr>,
        assignmentSeq = 3,
        undoStack = [\<lparr>htype = Create,
                      hdata = \<lparr>asg_id = 1, asg_carId = 1, asg_shopId = 1, asg_month = january_2025\<rparr>,
                      timestamp = 1735689600000\<rparr>],
        redoStack = []\<rparr>)"
  by (simp add: after_undo_def after_undo_eq redo_def create_logged_def history_reply_def store_ops
      shop_A_def shop_B_def Let_def)

lemma second_undo_eq:
  "undo after_redo =
     (Inl (HttpError ''Record to delete does not exist.'' 500),
      \<lparr>db = \<lparr>cars = [\<lparr>car_id = 1, car_status = ''scheduled''\<rparr>], shops = [shop_A, shop_B],
              assignments = [\<lparr>asg_id = 2, asg_carId = 1, asg_shopId = 1, asg_month = january_2025\<rparr>],
              scenarios = []\<rparr>,
        assignmentSeq = 3,
        undoStack = [],
        redoStack = [\<lparr>htype = Create,
                      hdata = \<lparr>asg_id = 1, asg_carId = 1, asg_shopId = 1, asg_month = january_2025\<rparr>,
                      timestamp = 1735689600000\<rparr>]\<rparr>)"
  by (simp add: after_redo_def after_redo_eq undo_def delete_logged_def history_reply_def store_ops
      Let_def)

lemma after_undo_state:
  "after_undo =
      \<lparr>db = \<lparr>cars = [\<lparr>car_id = 1, car_status = ''unscheduled''\<rparr>], shops = [shop_A, shop_B],
              assignments = [], scenarios = []\<rparr>,
        assignmentSeq = 2,
        undoStack = [],
        redoStack = [\<lparr>htype = Create,
                      hdata = \<lparr>asg_id = 1, asg_carId = 1, asg_shopId = 1, asg_month = january_2025\<rparr>,
                      timestamp = 1735689600000\<rparr>]\<rparr>"
  by (simp only: after_undo_def after_undo_eq snd_conv)

lemma after_redo_state:
  "after_redo =
      \<lparr>db = \<lparr>cars = [\<lparr>car_id = 1, car_status = ''scheduled''\<rparr>], shops = [shop_A, shop_B],
              assignments = [\<lparr>asg_id = 2, asg_carId = 1, asg_shopId = 1, asg_month = january_2025\<rparr>],
              scenarios = []\<rparr>,
        assignmentSeq = 3,
        undoStack = [\<lparr>htype = Create,
                      hdata = \<lparr>asg_id = 1, asg_carId = 1, asg_shopId = 1, asg_month = january_2025\<rparr>,
                      timestamp = 1735689600000\<rparr>],
        redoStack = []\<rparr>"
  by (simp only: after_redo_def after_redo_eq snd_conv)

text \<open>
  C4, evaluated where the round trip fails. One car is assigned (row 1), the assignment
  is undone (no row is left and the car is \<^verbatim>\<open>unscheduled\<close> again), and redone: the row
  that redo inserts has id 2, while the undo stack again holds the action that names
  row 1. The state after redo is therefore not the state before the undo, and the next
  undo pops that action, fails to delete row 1, and leaves row 2 in place.
\<close>

theorem redo_inserts_a_row_with_a_new_id:
  "assignments (db after_assign) =
     [\<lparr>asg_id = 1, asg_carId = 1, asg_shopId = 1, asg_month = january_2025\<rparr>] \<and>
   assignments (db after_undo) = [] \<and>
   map car_status (cars (db after_undo)) = [''unscheduled''] \<and>
   assignments (db after_redo) =
     [\<lparr>asg_id = 2, asg_carId = 1, asg_shopId = 1, asg_month = january_2025\<rparr>] \<and>
   map car_status (cars (db after_redo)) = [''scheduled''] \<and>
   undoStack after_redo = undoStack after_assign \<and>
   after_redo \<noteq> after_assign \<and>
   fst (undo after_redo) = Inl (HttpError ''Record to delete does not exist.'' 500) \<and>
   assignments (db (snd (undo after_redo))) = assignments (db after_redo) \<and>
   undoStack (snd (undo after_redo)) = []"
  by (simp add: second_undo_eq) (simp add: after_assign_eq after_undo_state after_redo_state)

lemma unassign_success:
  assumes "unassign now i s = (Inr m, s')"
  shows "redoStack s' = []"
proof -
  obtain a where a: "assignment_findUnique (db s) i = Some a"
    using assms by (cases "assignment_findUnique (db s) i") (simp_all add: unassign_def)
  let ?s1 = "addToHistory \<lparr>htype = Delete, hdata = a, timestamp = now\<rparr> s"
  have "redoStack s' = redoStack ?s1"
    using assms
    by (auto simp: unassign_def a Let_def split: prod.splits sum.splits if_splits
        dest!: assignment_delete_stacks car_update_status_stacks)
  then show ?thesis by (simp add: addToHistory_redo)
qed

lemma redo_empty: "redoStack s = [] \<Longrightarrow> redo s = (Inl (HttpError ''Nothing to redo'' 400), s)"
  by (simp add: redo_def)

lemma undo_keeps_redo:
  "redoStack (snd (undo s)) =
     (if undoStack s = [] then redoStack s else redoStack s @ [last (undoStack s)])"
  using undo_stacks [of s] by (auto simp: undo_def)

text \<open>
  C8 (as amended). An assign or an unassign that succeeds leaves the redo stack empty, so
  that a redo issued next fails with \<^verbatim>\<open>Nothing to redo\<close> (status 400) and changes
  nothing. Undo never removes an action from the redo stack: the stack it leaves is the
  one it found, with the undone action added when there was one.
\<close>

theorem successful_mutation_clears_redo:
  "(assign Date_new now body s = (Inr r, s1) \<longrightarrow>
      redoStack s1 = [] \<and> redo s1 = (Inl (HttpError ''Nothing to redo'' 400), s1)) \<and>
   (unassign now' i s = (Inr m, s2) \<longrightarrow>
      redoStack s2 = [] \<and> redo s2 = (Inl (HttpError ''Nothing to redo'' 400), s2)) \<and>
   redoStack (snd (undo s)) =
     (if undoStack s = [] then redoStack s else redoStack s @ [last (undoStack s)]) \<and>
   (redoStack s \<noteq> [] \<longrightarrow> redoStack (snd (undo s)) \<noteq> [])"
proof -
  have a: "redoStack s1 = [] \<and> redo s1 = (Inl (HttpError ''Nothing to redo'' 400), s1)"
    if "assign Date_new now body s = (Inr r, s1)"
    using assign_success(3) [OF that] by (simp add: redo_empty)
  have u: "redoStack s2 = [] \<and> redo s2 = (Inl (HttpError ''Nothing to redo'' 400), s2)"
    if "unassign now' i s = (Inr m, s2)"
    using unassign_success [OF that] by (simp add: redo_empty)
  show ?thesis using a u by (simp add: undo_keeps_redo)
qed

lemma second_assignment:
  "assign sample_Date_new 1738368000000 second_request after_undo =
     (Inr \<lparr>data = \<lparr>asg_id = 2, asg_carId = 1, asg_shopId = 2,
                     asg_month = \<lparr>dyear = 2025, dmonth = 2, drest = 0\<rparr>\<rparr>,
           warning = None\<rparr>,
      \<lparr>db = \<lparr>cars = [\<lparr>car_id = 1, car_status = ''scheduled''\<rparr>], shops = [shop_A, shop_B],
              assignments = [\<lparr>asg_id = 2, asg_carId = 1, asg_shopId = 2,
                               asg_month = \<lparr>dyear = 2025, dmonth = 2, drest = 0\<rparr>\<rparr>],
              scenarios = []\<rparr>,
        assignmentSeq = 3,
        undoStack = [\<lparr>htype = Create,
                      hdata = \<lparr>asg_id = 2, asg_carId = 1, asg_shopId = 2,
                               asg_month = \<lparr>dyear = 2025, dmonth = 2, drest = 0\<rparr>\<rparr>,
                      timestamp = 1738368000000\<rparr>],
        redoStack = []\<rparr>)"
  by (simp add: after_undo_state assign_def second_request_def shop_A_def shop_B_def
      sample_Date_new_def store_ops addToHistory_def MAX_HISTORY_def Let_def)

theorem successful_mutation_clears_redo_witness:
  "redoStack after_undo \<noteq> [] \<and>
   redoStack (snd (assign sample_Date_new 1738368000000 second_request after_undo)) = [] \<and>
   fst (redo (snd (assign sample_Date_new 1738368000000 second_request after_undo))) =
     Inl (HttpError ''Nothing to redo'' 400)"
proof -
  have ne: "redoStack after_undo \<noteq> []" by (simp add: after_undo_state)
  from successful_mutation_clears_redo [of sample_Date_new 1738368000000 second_request after_undo]
    second_assignment ne
  show ?thesis by (simp only: snd_conv fst_conv simp_thms)
qed

theorem failed_assign_keeps_redo:
  "redoStack after_undo \<noteq> [] \<and>
   assign sample_Date_new 1738368000000 ghost_request after_undo =
     (Inl (HttpError ''Car not found'' 404), after_undo) \<and>
   fst (redo after_undo) =
     Inr \<lparr>message = ''Action redone'', undoStackSize = 1, redoStackSize = 0\<rparr> \<and>
   fst (redo after_undo) \<noteq> Inl (HttpError ''Nothing to redo'' 400)"
proof -
  have "assign sample_Date_new 1738368000000 ghost_request after_undo =
     (Inl (HttpError ''Car not found'' 404), after_undo)"
    by (simp add: after_undo_state assign_def ghost_request_def store_ops)
  moreover have "redoStack after_undo \<noteq> []" by (simp add: after_undo_state)
  ultimately show ?thesis by (simp add: after_redo_eq)
qed

lemma assign_all_length: "assign_all Date_new reqs s = (replies, s') \<Longrightarrow> length replies = length reqs"
  by (induction reqs arbitrary: s replies) (auto split: prod.splits)

lemma keep_last_step:
  assumes "length u \<le> MAX_HISTORY"
    and "u1 = (if length u \<ge> MAX_HISTORY then tl (u @ [a]) else u @ [a])"
  shows "length u1 \<le> MAX_HISTORY"
    and "drop (length (u1 @ L) - MAX_HISTORY) (u1 @ L) =
         drop (length (u @ a # L) - MAX_HISTORY) (u @ a # L)"
proof -
  show "length u1 \<le> MAX_HISTORY" using assms by auto
  show "drop (length (u1 @ L) - MAX_HISTORY) (u1 @ L) =
        drop (length (u @ a # L) - MAX_HISTORY) (u @ a # L)"
  proof (cases "length u \<ge> MAX_HISTORY")
    case False
    then have "u1 @ L = u @ a # L" using assms(2) by simp
    then show ?thesis by (simp only:)
  next
    case True
    then have len: "length u = MAX_HISTORY" using assms(1) by simp
    then obtain x u' where u: "u = x # u'" by (cases u) (simp_all add: MAX_HISTORY_def)
    have u1: "u1 @ L = u' @ a # L" using assms(2) True by (simp add: u)
    have "length (u' @ a # L) \<ge> MAX_HISTORY" using len by (simp add: u)
    then have "length (u @ a # L) - MAX_HISTORY = Suc (length (u' @ a # L) - MAX_HISTORY)"
      by (simp add: u Suc_diff_le)
    then show ?thesis by (simp only: u1) (simp add: u)
  qed
qed

lemma upt_shift: "[a..<a + Suc k] = a # [Suc a..<Suc a + k]"
  by (simp add: upt_rec [of a] del: upt_Suc)

lemma assign_all_undo:
  "assign_all Date_new reqs s = (replies, s') \<Longrightarrow> length (undoStack s) \<le> MAX_HISTORY \<Longrightarrow>
   undoStack s' =
     drop (length (undoStack s @ logged reqs replies) - MAX_HISTORY) (undoStack s @ logged reqs replies)"
proof (induction reqs arbitrary: s replies)
  case Nil
  then show ?case by simp
next
  case (Cons q qs)
  obtain x s1 where a: "assign Date_new (fst q) (snd q) s = (x, s1)" by force
  obtain xs where rest: "assign_all Date_new qs s1 = (xs, s')" and rep: "replies = x # xs"
    using Cons.prems(1) a by (auto split: prod.splits)
  show ?case
  proof (cases x)
    case (Inl e)
    then have same: "undoStack s1 = undoStack s" using assign_failure a by blast
    show ?thesis using Cons.IH [OF rest] Cons.prems(2) same by (simp add: rep Inl)
  next
    case (Inr r)
    let ?a = "\<lparr>htype = Create, hdata = data r, timestamp = fst q\<rparr>"
    have a': "assign Date_new (fst q) (snd q) s = (Inr r, s1)" using a Inr by simp
    have u1: "undoStack s1 =
        (if length (undoStack s) \<ge> MAX_HISTORY then tl (undoStack s @ [?a]) else undoStack s @ [?a])"
      by (rule assign_success(4) [OF a'])
    note k = keep_last_step [OF Cons.prems(2) u1]
    have "undoStack s' =
        drop (length (undoStack s1 @ logged qs xs) - MAX_HISTORY) (undoStack s1 @ logged qs xs)"
      by (rule Cons.IH [OF rest k(1)])
    also have "\<dots> = drop (length (undoStack s @ ?a # logged qs xs) - MAX_HISTORY)
        (undoStack s @ ?a # logged qs xs)"
      by (rule k(2))
    finally show ?thesis by (simp only: rep Inr logged.simps)
  qed
qed

lemma assign_all_ids:
  "assign_all Date_new reqs s = (replies, s') \<Longrightarrow> \<forall>r\<in>set replies. \<not> isl r \<Longrightarrow>
   map (\<lambda>a. asg_id (hdata a)) (logged reqs replies) =
     [assignmentSeq s ..< assignmentSeq s + length reqs]"
proof (induction reqs arbitrary: s replies)
  case Nil
  then show ?case by simp
next
  case (Cons q qs)
  obtain x s1 where a: "assign Date_new (fst q) (snd q) s = (x, s1)" by force
  obtain xs where rest: "assign_all Date_new qs s1 = (xs, s')" and rep: "replies = x # xs"
    using Cons.prems(1) a by (auto split: prod.splits)
  obtain r where r: "x = Inr r" using Cons.prems(2) rep by (cases x) auto
  have a': "assign Date_new (fst q) (snd q) s = (Inr r, s1)" using a r by simp
  have ok: "\<forall>r\<in>set xs. \<not> isl r" using Cons.prems(2) rep by simp
  have "map (\<lambda>a. asg_id (hdata a)) (logged (q # qs) replies) =
      assignmentSeq s # [Suc (assignmentSeq s)..<Suc (assignmentSeq s) + length qs]"
    using Cons.IH [OF rest ok] assign_success(1,2) [OF a'] by (simp add: rep r)
  also have "\<dots> = [assignmentSeq s..<assignmentSeq s + Suc (length qs)]"
    by (rule upt_shift [symmetric])
  finally show ?case by simp
qed

text \<open>
  C7. In every state reached from a start of the process the undo stack holds at most
  \<open>MAX_HISTORY = 50\<close> actions. After 51 assign calls in a row that all succeed, it holds
  exactly 50: the actions of the second to the fifty-first call, in order, and not the
  action the first call recorded.
\<close>

theorem undo_stack_capped:
  assumes "s = run Date_new (initial d n) rs"
    and "assign_all Date_new reqs s = (replies, s')"
    and "length reqs = 51"
    and "\<forall>r\<in>set replies. \<not> isl r"
  shows "length (undoStack s) \<le> 50 \<and> length (undoStack s') = 50 \<and>
         undoStack s' = tl (logged reqs replies) \<and>
         hd (logged reqs replies) \<notin> set (undoStack s')"
proof -
  have "history_bounded s"
    unfolding assms(1) by (rule run_bounded [OF initial_bounded])
  then have b: "length (undoStack s) \<le> MAX_HISTORY" by (simp add: history_bounded_def)
  let ?L = "logged reqs replies"
  have ids: "map (\<lambda>a. asg_id (hdata a)) ?L = [assignmentSeq s ..< assignmentSeq s + 51]"
    using assign_all_ids [OF assms(2) assms(4)] assms(3) by simp
  then have "length (map (\<lambda>a. asg_id (hdata a)) ?L) = 51" by simp
  then have len: "length ?L = 51" by simp
  have "distinct (map (\<lambda>a. asg_id (hdata a)) ?L)" unfolding ids by simp
  then have dist: "distinct ?L" by (simp add: distinct_map)
  have u: "undoStack s' = drop (length (undoStack s @ ?L) - MAX_HISTORY) (undoStack s @ ?L)"
    by (rule assign_all_undo [OF assms(2) b])
  have "length (undoStack s @ ?L) - MAX_HISTORY = length (undoStack s) + 1"
    using b len by (simp add: MAX_HISTORY_def)
  then have tl: "undoStack s' = tl ?L" using u by (simp add: drop_Suc)
  obtain x xs where L: "?L = x # xs" using len by (cases ?L) simp_all
  have "hd ?L \<notin> set (tl ?L)" using dist by (simp add: L)
  then show ?thesis using b tl len by (simp add: MAX_HISTORY_def)
qed

lemma car_ids_after_assign:
  assumes "assign Date_new now body s = (Inr r, s')"
  shows "car_id ` set (cars (db s')) = car_id ` set (cars (db s))"
proof -
  have "map car_id (cars (db s')) = map car_id (cars (db s))"
    by (simp add: assign_success_db(4) [OF assms] o_def if_distrib cong: if_cong)
  then have "set (map car_id (cars (db s'))) = set (map car_id (cars (db s)))" by simp
  then show ?thesis by (simp only: set_map)
qed

lemma assign_all_fresh:
  assumes "\<forall>q\<in>set reqs. carId (snd q) \<noteq> 0 \<and> shopId (snd q) \<noteq> 0 \<and> month (snd q) \<noteq> [] \<and>
             Date_new (month (snd q)) \<noteq> None"
    and "\<forall>q\<in>set reqs. carId (snd q) \<in> car_id ` set (cars (db s))"
    and "\<forall>q\<in>set reqs. shopId (snd q) \<in> shop_id ` set (shops (db s))"
    and "\<forall>q\<in>set reqs. \<forall>a\<in>set (assignments (db s)). asg_carId a \<noteq> carId (snd q)"
    and "distinct (map (\<lambda>q. carId (snd q)) reqs)"
  shows "\<forall>r\<in>set (fst (assign_all Date_new reqs s)). \<not> isl r"
  using assms
proof (induction reqs arbitrary: s)
  case Nil
  then show ?case by simp
next
  case (Cons q qs)
  have c0: "carId (snd q) \<noteq> 0" and s0: "shopId (snd q) \<noteq> 0" and m0: "month (snd q) \<noteq> []"
    using Cons.prems(1) by simp_all
  obtain d where d: "Date_new (month (snd q)) = Some d" using Cons.prems(1) by auto
  obtain c where c: "car_findUnique (db s) (carId (snd q)) = Some c"
    using Cons.prems(2) by (cases "car_findUnique (db s) (carId (snd q))")
      (auto simp: car_findUnique_def find_None_iff)
  obtain sh where sh: "shop_findUnique (db s) (shopId (snd q)) = Some sh"
    using Cons.prems(3) by (cases "shop_findUnique (db s) (shopId (snd q))")
      (auto simp: shop_findUnique_def find_None_iff)
  have free: "assignment_findUnique_carId_month (db s) (carId (snd q)) d = None"
    using Cons.prems(4) by (auto simp: assignment_findUnique_carId_month_def find_None_iff)
  obtain r s1 where ok: "assign Date_new (fst q) (snd q) s = (Inr r, s1)"
    using assign_ok [of "snd q" s c sh Date_new d "fst q"] c0 s0 m0 c sh d free by blast
  note dbf = assign_success_db [OF ok]
  have p1: "\<forall>q\<in>set qs. carId (snd q) \<noteq> 0 \<and> shopId (snd q) \<noteq> 0 \<and> month (snd q) \<noteq> [] \<and>
             Date_new (month (snd q)) \<noteq> None"
    using Cons.prems(1) by simp
  have p2: "\<forall>q\<in>set qs. carId (snd q) \<in> car_id ` set (cars (db s1))"
    using Cons.prems(2) by (simp add: car_ids_after_assign [OF ok])
  have p3: "\<forall>q\<in>set qs. shopId (snd q) \<in> shop_id ` set (shops (db s1))"
    using Cons.prems(3) by (simp add: dbf(2))
  have p4: "\<forall>q\<in>set qs. \<forall>a\<in>set (assignments (db s1)). asg_carId a \<noteq> carId (snd q)"
    using Cons.prems(4) Cons.prems(5) by (auto simp: dbf(1) dbf(5))
  have p5: "distinct (map (\<lambda>q. carId (snd q)) qs)" using Cons.prems(5) by simp
  have "\<forall>r\<in>set (fst (assign_all Date_new qs s1)). \<not> isl r"
    by (rule Cons.IH [OF p1 p2 p3 p4 p5])
  then show ?case using ok by (simp split: prod.splits)
qed

lemma fleet_all_ok:
  "\<forall>r\<in>set (fst (assign_all sample_Date_new fleet_requests (initial fleet_store 1))). \<not> isl r"
proof (rule assign_all_fresh)
  show "\<forall>q\<in>set fleet_requests. carId (snd q) \<noteq> 0 \<and> shopId (snd q) \<noteq> 0 \<and> month (snd q) \<noteq> [] \<and>
      sample_Date_new (month (snd q)) \<noteq> None"
    by (simp add: fleet_requests_def sample_Date_new_def)
  show "\<forall>q\<in>set fleet_requests. carId (snd q) \<in> car_id ` set (cars (db (initial fleet_store 1)))"
    by (simp add: fleet_requests_def fleet_store_def initial_def image_image)
  show "\<forall>q\<in>set fleet_requests. shopId (snd q) \<in> shop_id ` set (shops (db (initial fleet_store 1)))"
    by (simp add: fleet_requests_def fleet_store_def initial_def shop_A_def)
  show "\<forall>q\<in>set fleet_requests. \<forall>a\<in>set (assignments (db (initial fleet_store 1))). asg_carId a \<noteq> carId (snd q)"
    by (simp add: fleet_store_def initial_def)
  show "distinct (map (\<lambda>q. carId (snd q)) fleet_requests)"
    by (simp add: fleet_requests_def o_def)
qed

theorem undo_stack_capped_witness:
  "length (undoStack (snd (assign_all sample_Date_new fleet_requests (initial fleet_store 1)))) = 50 \<and>
   undoStack (snd (assign_all sample_Date_new fleet_requests (initial fleet_store 1))) =
     tl (logged fleet_requests (fst (assign_all sample_Date_new fleet_requests (initial fleet_store 1))))"
proof -
  have h1: "initial fleet_store 1 = run sample_Date_new (initial fleet_store 1) []"
    by (simp add: run_def)
  have h2: "assign_all sample_Date_new fleet_requests (initial fleet_store 1) =
      (fst (assign_all sample_Date_new fleet_requests (initial fleet_store 1)),
       snd (assign_all sample_Date_new fleet_requests (initial fleet_store 1)))"
    by simp
  have h3: "length fleet_requests = 51" by (simp add: fleet_requests_def)
  from undo_stack_capped [OF h1 h2 h3 fleet_all_ok] show ?thesis by blast
qed

section \<open>Properties of applying a scenario\<close>

lemma assignment_create_db:
  "assignment_create c sh m s = (r, s') \<Longrightarrow>
   cars (db s') = cars (db s) \<and> shops (db s') = shops (db s) \<and>
   scenarios (db s') = scenarios (db s) \<and>
   (case r of Inl e \<Rightarrow> assignments (db s') = assignments (db s)
    | Inr row \<Rightarrow> assignments (db s') = assignments (db s) @ [row] \<and>
        asg_carId row = c \<and> asg_month row = m \<and>
        car_findUnique (db s) c \<noteq> None \<and> shop_findUnique (db s) sh \<noteq> None)"
  by (auto simp: assignment_create_def Let_def split: if_splits)

lemma car_update_status_db:
  "car_update_status c st s = (r, s') \<Longrightarrow>
   assignments (db s') = assignments (db s) \<and> shops (db s') = shops (db s) \<and>
   scenarios (db s') = scenarios (db s) \<and>
   (case r of Inl e \<Rightarrow> cars (db s') = cars (db s) \<and> car_findUnique (db s) c = None
    | Inr u \<Rightarrow> cars (db s') =
        map (\<lambda>r. if car_id r = c then r\<lparr>car_status := st\<rparr> else r) (cars (db s)))"
  by (auto simp: car_update_status_def split: if_splits)

lemma apply_loop_grows:
  "apply_loop Date_new xs created s = (r, s') \<Longrightarrow>
   scenarios (db s') = scenarios (db s) \<and>
   (\<exists>ys. assignments (db s') = assignments (db s) @ ys)"
proof (induction xs arbitrary: created s)
  case Nil
  then show ?case by simp
next
  case (Cons a xs)
  show ?case
  proof (cases "Date_new (month a)")
    case None
    then show ?thesis using Cons.prems by simp
  next
    case (Some d)
    show ?thesis
    proof (cases "assignment_findUnique_carId_month (db s) (carId a) d")
      case (Some existing)
      then show ?thesis using Cons.prems Cons.IH \<open>Date_new (month a) = Some d\<close> by simp
    next
      case None
      obtain x s1 where c: "assignment_create (carId a) (shopId a) d s = (x, s1)" by force
      note cd = assignment_create_db [OF c]
      show ?thesis
      proof (cases x)
        case (Inl e)
        then show ?thesis using Cons.prems \<open>Date_new (month a) = Some d\<close> None c cd by auto
      next
        case (Inr row)
        obtain y s2 where u: "car_update_status (carId a) ''scheduled'' s1 = (y, s2)" by force
        note ud = car_update_status_db [OF u]
        show ?thesis
        proof (cases y)
          case (Inl e)
          then show ?thesis
            using Cons.prems \<open>Date_new (month a) = Some d\<close> None c cd Inr u ud by auto
        next
          case (Inr v)
          then have "apply_loop Date_new xs (created @ [row]) s2 = (r, s')"
            using Cons.prems \<open>Date_new (month a) = Some d\<close> None c \<open>x = Inr row\<close> u by simp
          from Cons.IH [OF this] show ?thesis
            using cd ud \<open>x = Inr row\<close> by auto
        qed
      qed
    qed
  qed
qed

lemma find_append_keeps:
  "find P xs \<noteq> None \<Longrightarrow> find P (xs @ ys) \<noteq> None"
  by (auto simp: find_None_iff)

lemma apply_loop_success_exists:
  "apply_loop Date_new xs created s = (Inr created', s') \<Longrightarrow>
   \<forall>a\<in>set xs. \<exists>d. Date_new (month a) = Some d \<and>
      assignment_findUnique_carId_month (db s') (carId a) d \<noteq> None"
proof (induction xs arbitrary: created s)
  case Nil
  then show ?case by simp
next
  case (Cons a xs)
  obtain d where d: "Date_new (month a) = Some d"
    using Cons.prems by (cases "Date_new (month a)") simp_all
  have "\<exists>s1. apply_loop Date_new xs
           (if assignment_findUnique_carId_month (db s) (carId a) d = None
            then created @ [\<lparr>asg_id = assignmentSeq s, asg_carId = carId a, asg_shopId = shopId a,
                               asg_month = d\<rparr>] else created) s1 = (Inr created', s') \<and>
         assignment_findUnique_carId_month (db s1) (carId a) d \<noteq> None"
  proof (cases "assignment_findUnique_carId_month (db s) (carId a) d")
    case (Some existing)
    then show ?thesis using Cons.prems d by auto
  next
    case None
    obtain x s1 where c: "assignment_create (carId a) (shopId a) d s = (x, s1)" by force
    obtain row where x: "x = Inr row" using Cons.prems d None c by (cases x) simp_all
    obtain y s2 where u: "car_update_status (carId a) ''scheduled'' s1 = (y, s2)" by force
    obtain v where y: "y = Inr v" using Cons.prems d None c x u by (cases y) simp_all
    have row: "row = \<lparr>asg_id = assignmentSeq s, asg_carId = carId a, asg_shopId = shopId a, asg_month = d\<rparr>"
      using c x by (auto simp: assignment_create_def Let_def split: if_splits)
    have rest: "apply_loop Date_new xs (created @ [row]) s2 = (Inr created', s')"
      using Cons.prems d None c x u y by simp
    have "assignments (db s2) = assignments (db s) @ [row]"
      using assignment_create_db [OF c] car_update_status_db [OF u] x by simp
    then have "row \<in> set (assignments (db s2)) \<and> asg_carId row = carId a \<and> asg_month row = d"
      by (simp add: row)
    then have "assignment_findUnique_carId_month (db s2) (carId a) d \<noteq> None"
      unfolding assignment_findUnique_carId_month_def find_None_iff by blast
    then show ?thesis using rest None row by auto
  qed
  then obtain s1 c1 where rest: "apply_loop Date_new xs c1 s1 = (Inr created', s')"
    and here: "assignment_findUnique_carId_month (db s1) (carId a) d \<noteq> None"
    by blast
  obtain ys where "assignments (db s') = assignments (db s1) @ ys"
    using apply_loop_grows [OF rest] by blast
  then have "assignment_findUnique_carId_month (db s') (carId a) d \<noteq> None"
    using here by (simp add: assignment_findUnique_carId_month_def find_append_keeps)
  then show ?case using Cons.IH [OF rest] d by simp
qed

lemma apply_loop_all_exist:
  "\<forall>a\<in>set xs. \<exists>d. Date_new (month a) = Some d \<and>
      assignment_findUnique_carId_month (db s) (carId a) d \<noteq> None \<Longrightarrow>
   apply_loop Date_new xs created s = (Inr created, s)"
  by (induction xs) auto

lemma find_key_None:
  "(find (\<lambda>a. asg_carId a = c \<and> asg_month a = d) xs = None) =
     ((c, d) \<notin> set (map (\<lambda>a. (asg_carId a, asg_month a)) xs))"
  by (auto simp: find_None_iff)

lemma findUnique_same_keys:
  assumes "map (\<lambda>a. (asg_carId a, asg_month a)) (assignments (db s)) =
           map (\<lambda>a. (asg_carId a, asg_month a)) (assignments (db t))"
  shows "(assignment_findUnique_carId_month (db s) c d = None) =
         (assignment_findUnique_carId_month (db t) c d = None)"
  unfolding assignment_findUnique_carId_month_def find_key_None using assms by simp

text \<open>
  Whether the loop fails does not depend on the value of the id sequence, nor on the ids
  of the rows present.
\<close>

lemma apply_loop_seq_independent:
  assumes "cars (db s) = cars (db t)" and "shops (db s) = shops (db t)"
    and "map (\<lambda>a. (asg_carId a, asg_month a)) (assignments (db s)) =
         map (\<lambda>a. (asg_carId a, asg_month a)) (assignments (db t))"
  shows "isl (fst (apply_loop Date_new xs c1 s)) = isl (fst (apply_loop Date_new xs c2 t))"
  using assms
proof (induction xs arbitrary: c1 c2 s t)
  case Nil
  then show ?case by simp
next
  case (Cons a xs)
  show ?case
  proof (cases "Date_new (month a)")
    case None
    then show ?thesis by simp
  next
    case (Some d)
    note k = findUnique_same_keys [OF Cons.prems(3), of "carId a" d]
    show ?thesis
    proof (cases "assignment_findUnique_carId_month (db s) (carId a) d")
      case (Some existing)
      then obtain e' where "assignment_findUnique_carId_month (db t) (carId a) d = Some e'"
        using k by (cases "assignment_findUnique_carId_month (db t) (carId a) d") simp_all
      then show ?thesis
        using Some \<open>Date_new (month a) = Some d\<close> Cons.IH [OF Cons.prems] by simp
    next
      case None
      then have None': "assignment_findUnique_carId_month (db t) (carId a) d = None"
        using k by simp
      show ?thesis
      proof (cases "car_findUnique (db s) (carId a) = None \<or> shop_findUnique (db s) (shopId a) = None")
        case True
        then have "car_findUnique (db t) (carId a) = None \<or> shop_findUnique (db t) (shopId a) = None"
          using Cons.prems(1,2) by (simp add: car_findUnique_def shop_findUnique_def)
        then show ?thesis
          using True None None' \<open>Date_new (month a) = Some d\<close>
          by (simp add: assignment_create_def Let_def)
      next
        case False
        then have False': "\<not> (car_findUnique (db t) (carId a) = None \<or> shop_findUnique (db t) (shopId a) = None)"
          using Cons.prems(1,2) by (simp add: car_findUnique_def shop_findUnique_def)
        let ?row = "\<lambda>u. \<lparr>asg_id = assignmentSeq u, asg_carId = carId a, asg_shopId = shopId a, asg_month = d\<rparr>"
        let ?upd = "\<lambda>u. u\<lparr>assignmentSeq := assignmentSeq u + 1,
            db := (db u)\<lparr>assignments := assignments (db u) @ [?row u],
                   cars := map (\<lambda>r. if car_id r = carId a then r\<lparr>car_status := ''scheduled''\<rparr> else r)
                     (cars (db u))\<rparr>\<rparr>"
        have step_s: "apply_loop Date_new (a # xs) c1 s = apply_loop Date_new xs (c1 @ [?row s]) (?upd s)"
          using False None \<open>Date_new (month a) = Some d\<close>
          by (auto simp: assignment_create_def car_update_status_def car_findUnique_frame Let_def)
        have step_t: "apply_loop Date_new (a # xs) c2 t = apply_loop Date_new xs (c2 @ [?row t]) (?upd t)"
          using False' None' \<open>Date_new (month a) = Some d\<close>
          by (auto simp: assignment_create_def car_update_status_def car_findUnique_frame Let_def)
        have "isl (fst (apply_loop Date_new xs (c1 @ [?row s]) (?upd s))) =
              isl (fst (apply_loop Date_new xs (c2 @ [?row t]) (?upd t)))"
          by (rule Cons.IH) (simp_all add: Cons.prems)
        then show ?thesis by (simp only: step_s step_t)
      qed
    qed
  qed
qed

text \<open>
  C5. Applying a stored scenario a second time, the state being the one the first call
  left, creates no assignment and changes no table. When the first call succeeded the
  second succeeds too and returns the empty list: every tuple is then found and skipped.
\<close>

theorem apply_twice_creates_nothing:
  assumes "apply_scenario Date_new i s = (r1, s1)"
    and "apply_scenario Date_new i s1 = (r2, s2)"
  shows "db s2 = db s1 \<and> (\<forall>created. r2 = Inr created \<longrightarrow> created = []) \<and>
         (\<not> isl r1 \<longrightarrow> r2 = Inr [] \<and> s2 = s1)"
proof (cases "scenario_findUnique (db s) i")
  case None
  then have "s1 = s \<and> isl r1" using assms(1) by (auto simp: apply_scenario_def)
  then show ?thesis using assms(2) None by (auto simp: apply_scenario_def)
next
  case (Some sc)
  show ?thesis
  proof (cases "scenario_data sc")
    case None
    then have "s1 = s \<and> isl r1" using assms(1) Some by (auto simp: apply_scenario_def)
    then show ?thesis using assms(2) Some None by (auto simp: apply_scenario_def)
  next
    case (Some proposed)
    obtain x t where loop: "apply_loop Date_new proposed [] s = (x, t)" by force
    have first: "apply_scenario Date_new i s = transaction (apply_loop Date_new proposed []) s"
      using \<open>scenario_findUnique (db s) i = Some sc\<close> Some by (simp add: apply_scenario_def)
    show ?thesis
    proof (cases x)
      case (Inl e)
      then have s1: "r1 = Inl e \<and> s1 = t\<lparr>db := db s\<rparr>"
        using assms(1) first loop by (simp add: transaction_def)
      then have dbs: "db s1 = db s" by simp
      then have second: "apply_scenario Date_new i s1 = transaction (apply_loop Date_new proposed []) s1"
        using \<open>scenario_findUnique (db s) i = Some sc\<close> Some
        by (simp add: apply_scenario_def scenario_findUnique_def)
      have "isl (fst (apply_loop Date_new proposed [] s)) = isl (fst (apply_loop Date_new proposed [] s1))"
        by (rule apply_loop_seq_independent) (simp_all add: dbs)
      then have "isl (fst (apply_loop Date_new proposed [] s1))" using loop Inl by simp
      then obtain e' t' where "apply_loop Date_new proposed [] s1 = (Inl e', t')"
        by (cases "apply_loop Date_new proposed [] s1") (auto simp: isl_def)
      then have "r2 = Inl e' \<and> s2 = t'\<lparr>db := db s1\<rparr>"
        using assms(2) second by (simp add: transaction_def)
      then show ?thesis using s1 by auto
    next
      case (Inr created)
      then have s1: "r1 = Inr created \<and> s1 = t"
        using assms(1) first loop by (simp add: transaction_def)
      have ex: "\<forall>a\<in>set proposed. \<exists>d. Date_new (month a) = Some d \<and>
          assignment_findUnique_carId_month (db s1) (carId a) d \<noteq> None"
        using apply_loop_success_exists [of Date_new proposed "[]" s created t] loop Inr s1 by simp
      have "scenarios (db s1) = scenarios (db s)"
        using apply_loop_grows [OF loop] s1 by simp
      then have second: "apply_scenario Date_new i s1 = transaction (apply_loop Date_new proposed []) s1"
        using \<open>scenario_findUnique (db s) i = Some sc\<close> Some
        by (simp add: apply_scenario_def scenario_findUnique_def)
      have "apply_loop Date_new proposed [] s1 = (Inr [], s1)"
        by (rule apply_loop_all_exist [OF ex])
      then have "r2 = Inr [] \<and> s2 = s1"
        using assms(2) second by (simp add: transaction_def)
      then show ?thesis by simp
    qed
  qed
qed

text \<open>
  C6. When applying a scenario fails, for whatever reason, the tables are exactly those
  from before the call: no assignment of the call is kept and no car status it set, and
  the history stacks are untouched.
\<close>

theorem apply_is_all_or_nothing:
  assumes "apply_scenario Date_new i s = (Inl e, s')"
  shows "db s' = db s \<and> undoStack s' = undoStack s \<and> redoStack s' = redoStack s"
proof -
  have "db s' = db s"
    using assms
    by (auto simp: apply_scenario_def transaction_def split: option.splits prod.splits sum.splits)
  moreover have "undoStack s' = undoStack s \<and> redoStack s' = redoStack s"
    using apply_scenario_stacks [of Date_new i s] assms by simp
  ultimately show ?thesis by simp
qed

lemma sound_plan_applied:
  "apply_scenario sample_Date_new 1 (initial plan_store 1) =
     (Inr [\<lparr>asg_id = 1, asg_carId = 1, asg_shopId = 1, asg_month = \<lparr>dyear = 2025, dmonth = 1, drest = 0\<rparr>\<rparr>,
           \<lparr>asg_id = 2, asg_carId = 1, asg_shopId = 2, asg_month = \<lparr>dyear = 2025, dmonth = 2, drest = 0\<rparr>\<rparr>],
      \<lparr>db = \<lparr>cars = [\<lparr>car_id = 1, car_status = ''scheduled''\<rparr>], shops = [shop_A, shop_B],
              assignments =
                [\<lparr>asg_id = 1, asg_carId = 1, asg_shopId = 1, asg_month = \<lparr>dyear = 2025, dmonth = 1, drest = 0\<rparr>\<rparr>,
                 \<lparr>asg_id = 2, asg_carId = 1, asg_shopId = 2, asg_month = \<lparr>dyear = 2025, dmonth = 2, drest = 0\<rparr>\<rparr>],
              scenarios = [sound_plan, broken_plan]\<rparr>,
        assignmentSeq = 3, undoStack = [], redoStack = []\<rparr>)"
  by (simp add: apply_scenario_def transaction_def scenario_findUnique_def initial_def plan_store_def
      idle_store_def sound_plan_def broken_plan_def first_request_def second_request_def
      shop_A_def shop_B_def sample_Date_new_def store_ops Let_def)

theorem apply_twice_creates_nothing_witness:
  "\<exists>created s1. apply_scenario sample_Date_new 1 (initial plan_store 1) = (Inr created, s1) \<and>
     length created = 2 \<and> apply_scenario sample_Date_new 1 s1 = (Inr [], s1)"
proof -
  obtain created s1 where first: "apply_scenario sample_Date_new 1 (initial plan_store 1) = (Inr created, s1)"
    and len: "length created = 2"
    using sound_plan_applied by simp
  obtain r2 s2 where second: "apply_scenario sample_Date_new 1 s1 = (r2, s2)" by force
  from apply_twice_creates_nothing [OF first second] have "r2 = Inr [] \<and> s2 = s1" by simp
  then show ?thesis using first len second by blast
qed

lemma broken_plan_applied:
  "apply_scenario sample_Date_new 2 (initial plan_store 1) =
     (Inl (HttpError ''Foreign key constraint failed'' 500),
      \<lparr>db = plan_store, assignmentSeq = 3, undoStack = [], redoStack = []\<rparr>)"
  by (simp add: apply_scenario_def transaction_def scenario_findUnique_def initial_def plan_store_def
      idle_store_def sound_plan_def broken_plan_def first_request_def second_request_def
      shop_A_def shop_B_def sample_Date_new_def store_ops Let_def)

lemma broken_plan_first_tuple:
  "apply_loop sample_Date_new [first_request] [] (initial plan_store 1) =
     (Inr [\<lparr>asg_id = 1, asg_carId = 1, asg_shopId = 1, asg_month = \<lparr>dyear = 2025, dmonth = 1, drest = 0\<rparr>\<rparr>],
      \<lparr>db = \<lparr>cars = [\<lparr>car_id = 1, car_status = ''scheduled''\<rparr>], shops = [shop_A, shop_B],
              assignments =
                [\<lparr>asg_id = 1, asg_carId = 1, asg_shopId = 1, asg_month = \<lparr>dyear = 2025, dmonth = 1, drest = 0\<rparr>\<rparr>],
              scenarios = [sound_plan, broken_plan]\<rparr>,
        assignmentSeq = 2, undoStack = [], redoStack = []\<rparr>)"
  by (simp add: initial_def plan_store_def idle_store_def first_request_def
      shop_A_def shop_B_def sample_Date_new_def store_ops Let_def)

theorem apply_is_all_or_nothing_witness:
  "assignments (db (snd (apply_loop sample_Date_new [first_request] [] (initial plan_store 1)))) \<noteq> [] \<and>
   fst (apply_scenario sample_Date_new 2 (initial plan_store 1)) =
     Inl (HttpError ''Foreign key constraint failed'' 500) \<and>
   db (snd (apply_scenario sample_Date_new 2 (initial plan_store 1))) = plan_store \<and>
   assignments plan_store = []"
proof -
  have e: "apply_scenario sample_Date_new 2 (initial plan_store 1) =
      (Inl (HttpError ''Foreign key constraint failed'' 500),
       snd (apply_scenario sample_Date_new 2 (initial plan_store 1)))"
    by (simp only: broken_plan_applied snd_conv)
  have a: "assignments (db (snd (apply_loop sample_Date_new [first_request] [] (initial plan_store 1)))) \<noteq> []"
    by (simp only: broken_plan_first_tuple snd_conv) simp
  have b: "fst (apply_scenario sample_Date_new 2 (initial plan_store 1)) =
      Inl (HttpError ''Foreign key constraint failed'' 500)"
    by (simp only: broken_plan_applied fst_conv)
  have "db (initial plan_store 1) = plan_store" by (simp add: initial_def)
  with apply_is_all_or_nothing [OF e]
  have c: "db (snd (apply_scenario sample_Date_new 2 (initial plan_store 1))) = plan_store"
    by (simp only:)
  have d: "assignments plan_store = []" by (simp add: plan_store_def idle_store_def)
  show ?thesis using a b c d by (intro conjI)
qed

section \<open>The forecast\<close>

lemma floor_rat_numeral: "\<lfloor>numeral a / numeral b :: rat\<rfloor> = numeral a div numeral b"
  using floor_divide_of_int_eq [of "numeral a" "numeral b", where ?'a = rat] by simp

lemma six_steps: "[0..<6] = [0, 1, 2, 3, 4, 5 :: nat]"
  by (simp add: upt_rec)

text \<open>
  C9, evaluated where the window is not the trailing one. On 15 June 2025 no assignment
  lies between 15 December 2024 and that day, yet the three assignments booked for
  December 2025 pass the only test the handler makes (\<open>month \<ge> sixMonthsAgo\<close>): the
  average is 3 and each of the six projected months carries 3.
\<close>

theorem forecast_counts_assignments_ahead:
  "filter (\<lambda>a. date_le mid_december_2024 (asg_month a) \<and> date_le (asg_month a) mid_june_2025)
     (assignments booked_ahead) = [] \<and>
   map avgMonthlyAssignments (forecast None mid_december_2024 months_after_june_2025 booked_ahead) =
     [Num 3] \<and>
   map (\<lambda>f. map projected (forecastData f))
     (forecast None mid_december_2024 months_after_june_2025 booked_ahead) = [[3, 3, 3, 3, 3, 3]]"
  by (simp add: forecast_def shop_forecast_def add_stats_def booked_ahead_def shop_B_def
      mid_december_2024_def mid_june_2025_def december_2025_def date_le_def six_steps
      math_round_def round2_def floor_half floor_rat_numeral Let_def)

end
